theory Spec2Isabelle
  imports Main "HOL-Library.AList"
begin

section \<open>JavaScript objects used as dictionaries\<close>

text \<open>
  The plugin keeps its registry in plain objects (\<^verbatim>\<open>this._elements = {}\<close>) and reads its
  configuration from one. Three facts of the language matter for what the code computes:
  \<^item> an assignment \<^verbatim>\<open>obj[k] = v\<close> to an existing own key replaces the value and keeps the
    key's place; a new key goes to the end;
  \<^item> \<^verbatim>\<open>Object.keys\<close> and \<^verbatim>\<open>Object.values\<close> enumerate the own keys that are array indices
    first, in ascending numeric order, and then the other string keys in creation order;
  \<^item> a read \<^verbatim>\<open>obj[k]\<close> of a key that is not an own property goes on to the prototype, which
    is \<^verbatim>\<open>Object.prototype\<close> for an object written \<^verbatim>\<open>{}\<close>;
  \<^item> an assignment to \<^verbatim>\<open>__proto__\<close> creates no own property: it makes an object the prototype,
    and it ignores a string.

  An object is modelled by the list of its own properties in creation order (the keys of
  such a list are distinct), and the registry also by the descriptor that an assignment has
  made its prototype, if any.
\<close>

type_synonym 'a js_object = "(string \<times> 'a) list"

definition is_digit :: "char \<Rightarrow> bool" where
  "is_digit c = (48 \<le> (of_char c :: nat) \<and> (of_char c :: nat) \<le> 57)"

definition digits_value :: "string \<Rightarrow> nat" where
  "digits_value s = foldl (\<lambda>n c. 10 * n + ((of_char c :: nat) - 48)) 0 s"

text \<open>An array index is the canonical decimal numeral of an integer below \<open>2^32 - 1\<close>.\<close>

definition is_array_index :: "string \<Rightarrow> bool" where
  "is_array_index s =
     (s \<noteq> [] \<and> list_all is_digit s \<and> (s = ''0'' \<or> hd s \<noteq> CHR ''0'')
      \<and> digits_value s < 4294967295)"

definition own_properties :: "'a js_object \<Rightarrow> (string \<times> 'a) list" where
  "own_properties obj =
     sort_key (\<lambda>p. digits_value (fst p)) (filter (\<lambda>p. is_array_index (fst p)) obj)
     @ filter (\<lambda>p. \<not> is_array_index (fst p)) obj"

definition Object_keys :: "'a js_object \<Rightarrow> string list" where
  "Object_keys obj = map fst (own_properties obj)"

definition Object_values :: "'a js_object \<Rightarrow> 'a list" where
  "Object_values obj = map snd (own_properties obj)"

text \<open>
  The own properties after \<^verbatim>\<open>obj[k] = v\<close>. (Once a descriptor is the prototype, an assignment
  under a name for which the class \<^verbatim>\<open>ElementInfo\<close> defines an accessor would create no own
  property either; the class is taken to define none under the name of a descriptor.)
\<close>

definition js_set :: "'a js_object \<Rightarrow> string \<Rightarrow> 'a \<Rightarrow> 'a js_object" where
  "js_set obj k v = (if k = ''__proto__'' then obj else AList.update k v obj)"

text \<open>The property names every plain object inherits from \<^verbatim>\<open>Object.prototype\<close>.\<close>

definition Object_prototype :: "string list" where
  "Object_prototype =
     [''constructor'', ''hasOwnProperty'', ''isPrototypeOf'', ''propertyIsEnumerable'',
      ''toLocaleString'', ''toString'', ''valueOf'', ''__proto__'',
      ''__defineGetter__'', ''__defineSetter__'', ''__lookupGetter__'', ''__lookupSetter__'']"

text \<open>
  What a read \<^verbatim>\<open>obj[k]\<close> finds: the own property; or nothing; or, while the prototype is
  \<^verbatim>\<open>Object.prototype\<close> (\<open>proto = None\<close>), the property \<open>k\<close> inherited from it; or, once a
  descriptor \<open>p\<close> is the prototype, \<open>p\<close> itself for the key \<^verbatim>\<open>__proto__\<close> and, for another key,
  whatever \<open>p\<close> holds under \<open>k\<close> (\<open>Via p k\<close>: the class \<^verbatim>\<open>ElementInfo\<close> decides what that is).
\<close>

datatype 'a js_value = Undefined | Own 'a | Inherited string | Prototype 'a | Via 'a string

definition js_get :: "'a option \<Rightarrow> 'a js_object \<Rightarrow> string \<Rightarrow> 'a js_value" where
  "js_get proto obj k =
     (case map_of obj k of
        Some v \<Rightarrow> Own v
      | None \<Rightarrow>
          (case proto of
             None \<Rightarrow> if k \<in> set Object_prototype then Inherited k else Undefined
           | Some p \<Rightarrow> if k = ''__proto__'' then Prototype p else Via p k))"

text \<open>\<^verbatim>\<open>[ ...new Set( xs ) ]\<close>: the first occurrence of each value, in order.\<close>

definition Set_values :: "'a list \<Rightarrow> 'a list" where
  "Set_values xs = rev (remdups (rev xs))"

section \<open>DOM nodes, descriptors and the host's elements\<close>

text \<open>
  A parsed template is a tree of DOM nodes; \<open>nodeType\<close> is 1 for an element, 3 for a text
  node, 8 for a comment.
\<close>

datatype dom = Node (nodeType: nat) (domTagName: string)
  (domAttributes: "(string \<times> string) list") (childNodes: "dom list")

fun setAttribute :: "dom \<Rightarrow> string \<Rightarrow> string \<Rightarrow> dom" where
  "setAttribute (Node nt tag attrs cs) k v = Node nt tag (AList.update k v attrs) cs"

text \<open>
  The class \<^verbatim>\<open>ElementInfo\<close> (\<^verbatim>\<open>./utils/elementinfo\<close>) is imported by the plugin. The plugin
  reads the fields \<open>name\<close>, \<open>type\<close>, \<open>tagName\<close>, \<open>attributes\<close> and \<open>parent\<close> of a
  descriptor and calls its method \<^verbatim>\<open>matches\<close>. The constructor call
  \<^verbatim>\<open>new ElementInfo( dom, parent )\<close> and the method are parameters of the functions below
  (\<open>mk\<close> and \<open>matches\<close>), so every theorem holds for whatever they compute.
\<close>

datatype ElementInfo = ElementInfo (name: string) (type: string) (tagName: string)
  (attributes: "string js_object") (parent: "ElementInfo option")

type_synonym constructor = "dom \<Rightarrow> ElementInfo option \<Rightarrow> ElementInfo"

record view_element =
  view_name :: string
  view_attributes :: "(string \<times> string) list"
  widget :: bool

record model_element =
  model_name :: string
  model_attributes :: "(string \<times> string) list"

text \<open>
  The host's writers: \<^verbatim>\<open>viewWriter.createContainerElement\<close>,
  \<^verbatim>\<open>modelWriter.createElement\<close>, and \<^verbatim>\<open>toWidget\<close>, which marks a view element as a widget.
\<close>

definition createContainerElement :: "string \<Rightarrow> (string \<times> string) list \<Rightarrow> view_element" where
  "createContainerElement n attrs = \<lparr>view_name = n, view_attributes = attrs, widget = False\<rparr>"

definition toWidget :: "view_element \<Rightarrow> view_element" where
  "toWidget el = el\<lparr>widget := True\<rparr>"

definition createElement :: "string \<Rightarrow> (string \<times> string) list \<Rightarrow> model_element" where
  "createElement n attrs = \<lparr>model_name = n, model_attributes = attrs\<rparr>"

section \<open>The plugin\<close>

text \<open>
  The state of \<^verbatim>\<open>TemplateEditing\<close>: its two dictionaries (for \<^verbatim>\<open>_elements\<close> the own properties
  and the prototype, \<open>None\<close> for \<^verbatim>\<open>Object.prototype\<close>), and the calls it has made to the host's
  schema, in order (\<^verbatim>\<open>schema.register\<close> and \<^verbatim>\<open>schema.extend\<close>). \<open>registerElement\<close> and \<open>init\<close>
  below are the run in which the host accepts every call; \<open>registerElement_run\<close> and
  \<open>init_run\<close>, after them, take the host's answers as a parameter.
\<close>

record schema_item =
  isObject :: bool
  isBlock :: bool
  allowIn :: string
  allowAttributes :: "string list"

datatype schema_call = Register string schema_item | Extend string "string list"

record TemplateEditing =
  elements :: "ElementInfo js_object"
  prototype :: "ElementInfo option"
  typeMap :: "string js_object"
  schema :: "schema_call list"

record template =
  label :: string
  template :: string

text \<open>The constructor: both dictionaries empty.\<close>

definition new_TemplateEditing :: TemplateEditing where
  "new_TemplateEditing = \<lparr>elements = [], prototype = None, typeMap = [], schema = []\<rparr>"

definition getElementInfo :: "TemplateEditing \<Rightarrow> string \<Rightarrow> ElementInfo js_value" where
  "getElementInfo this n = js_get (prototype this) (elements this) n"

definition getElementsByType :: "TemplateEditing \<Rightarrow> string \<Rightarrow> ElementInfo list" where
  "getElementsByType this t = filter (\<lambda>el. type el = t) (Object_values (elements this))"

definition elementTypes :: "TemplateEditing \<Rightarrow> string list" where
  "elementTypes this = Set_values (map type (Object_values (elements this)))"

definition findMatchingTemplateElement ::
  "(ElementInfo \<Rightarrow> view_element \<Rightarrow> bool) \<Rightarrow> TemplateEditing \<Rightarrow> view_element \<Rightarrow> string list
     \<Rightarrow> ElementInfo option" where
  "findMatchingTemplateElement matches this viewElement types =
     (case filter (\<lambda>el. matches el viewElement \<and> type el \<in> set types)
             (Object_values (elements this)) of
        [] \<Rightarrow> None
      | ms \<Rightarrow> Some (last ms))"

text \<open>
  \<^verbatim>\<open>_registerElement\<close>: the descriptor is stored under its name (line 211; under the name
  \<^verbatim>\<open>__proto__\<close> it becomes the prototype of the registry) before the schema call (line 215);
  then the child nodes of type 1 are registered in order, each with the new descriptor as
  its parent.
\<close>

fun registerElement :: "constructor \<Rightarrow> dom \<Rightarrow> ElementInfo option \<Rightarrow> TemplateEditing \<Rightarrow> TemplateEditing" where
  "registerElement mk (Node nt tag attrs cs) par this =
     (let element = mk (Node nt tag attrs cs) par;
          this1 = this\<lparr>elements := js_set (elements this) (name element) element,
                      prototype := (if name element = ''__proto__'' then Some element
                                    else prototype this),
                      typeMap := js_set (typeMap this) (type element) (name element)\<rparr>;
          this2 = this1\<lparr>schema := schema this1 @
                    [Register (name element)
                       \<lparr>isObject = True, isBlock = True,
                        allowIn = (case par of Some p \<Rightarrow> name p | None \<Rightarrow> ''$root''),
                        allowAttributes = Object_keys (attributes element)\<rparr>]\<rparr>
      in foldl (\<lambda>s child. registerElement mk child (Some element) s) this2
           (filter (\<lambda>node. nodeType node = 1) cs))"

text \<open>
  \<^verbatim>\<open>init\<close>, lines 91 to 114. \<^verbatim>\<open>DOMParser.parseFromString( markup, 'text/xml' ).documentElement\<close>
  is the parameter \<open>parseFromString\<close>: the parser is the browser's and raises nothing (for
  markup that is not well-formed it answers with a document that holds a \<^verbatim>\<open>parsererror\<close>
  element). The loop over
  \<^verbatim>\<open>Object.keys( templates )\<close> reads \<^verbatim>\<open>templates[ name ]\<close> for each key, that is, it visits
  the own properties in enumeration order. The other calls of \<^verbatim>\<open>init\<close> hand the command, the
  postfixer and the three conversions to the host; they change neither dictionary.
\<close>

definition init ::
  "(string \<Rightarrow> dom) \<Rightarrow> constructor \<Rightarrow> template js_object \<Rightarrow> TemplateEditing \<Rightarrow> TemplateEditing" where
  "init parseFromString mk templates this =
     (let this1 =
            foldl (\<lambda>s (n, t).
                     let dom = setAttribute (parseFromString (template t)) ''ck-name'' n
                     in registerElement mk dom None s)
              this (own_properties templates)
      in this1\<lparr>schema := schema this1 @
           [Extend ''$text'' (map (\<lambda>key. ''ck__'' @ key) (Object_keys templates))]\<rparr>)"

text \<open>
  The plugin raises nothing itself and catches nothing: a run of \<^verbatim>\<open>_registerElement\<close> or of
  \<^verbatim>\<open>init\<close> returns, or it is ended by the first schema call that the host refuses (by raising),
  with the plugin as it is then: the descriptor of the refused \<^verbatim>\<open>schema.register\<close> has been
  stored (line 211 is before line 215). \<open>host log c\<close> says whether the host, having accepted
  the calls \<open>log\<close>, accepts the call \<open>c\<close>; \<open>schema\<close> holds the accepted calls. The other calls
  of \<^verbatim>\<open>init\<close> to the host are taken to return.
\<close>

datatype outcome = Returned (final: TemplateEditing) | Thrown (final: TemplateEditing)

type_synonym host = "schema_call list \<Rightarrow> schema_call \<Rightarrow> bool"

fun registerElement_run ::
  "host \<Rightarrow> constructor \<Rightarrow> dom \<Rightarrow> ElementInfo option \<Rightarrow> TemplateEditing \<Rightarrow> outcome" where
  "registerElement_run host mk (Node nt tag attrs cs) par this =
     (let element = mk (Node nt tag attrs cs) par;
          this1 = this\<lparr>elements := js_set (elements this) (name element) element,
                      prototype := (if name element = ''__proto__'' then Some element
                                    else prototype this),
                      typeMap := js_set (typeMap this) (type element) (name element)\<rparr>;
          call = Register (name element)
                   \<lparr>isObject = True, isBlock = True,
                    allowIn = (case par of Some p \<Rightarrow> name p | None \<Rightarrow> ''$root''),
                    allowAttributes = Object_keys (attributes element)\<rparr>
      in if host (schema this1) call
         then foldl (\<lambda>run child. case run of
                         Returned s \<Rightarrow> registerElement_run host mk child (Some element) s
                       | Thrown s \<Rightarrow> Thrown s)
                (Returned (this1\<lparr>schema := schema this1 @ [call]\<rparr>))
                (filter (\<lambda>node. nodeType node = 1) cs)
         else Thrown this1)"

definition init_run ::
  "host \<Rightarrow> (string \<Rightarrow> dom) \<Rightarrow> constructor \<Rightarrow> template js_object \<Rightarrow> TemplateEditing \<Rightarrow> outcome" where
  "init_run host parseFromString mk templates this =
     (case foldl (\<lambda>run (n, t). case run of
                      Returned s \<Rightarrow>
                        registerElement_run host mk
                          (setAttribute (parseFromString (template t)) ''ck-name'' n) None s
                    | Thrown s \<Rightarrow> Thrown s)
             (Returned this) (own_properties templates) of
        Returned this1 \<Rightarrow>
          (let call = Extend ''$text'' (map (\<lambda>key. ''ck__'' @ key) (Object_keys templates))
           in if host (schema this1) call
              then Returned (this1\<lparr>schema := schema this1 @ [call]\<rparr>)
              else Thrown this1)
      | Thrown s \<Rightarrow> Thrown s)"

text \<open>The host, having accepted the calls \<open>log\<close>, accepts the calls \<open>cs\<close> one after the other.\<close>

fun accepts :: "host \<Rightarrow> schema_call list \<Rightarrow> schema_call list \<Rightarrow> bool" where
  "accepts host log [] = True"
| "accepts host log (c # cs) = (host log c \<and> accepts host (log @ [c]) cs)"

text \<open>
  The methods \<^verbatim>\<open>downcastTemplateElement\<close> and \<^verbatim>\<open>upcastTemplateElement\<close> (lines 168 to 196):
  the per-node decision they hand to the host. A value inherited from \<^verbatim>\<open>Object.prototype\<close>
  is truthy and has no \<^verbatim>\<open>type\<close>, so \<^verbatim>\<open>config.types.includes\<close> answers false for it. A read that
  finds the descriptor that is the prototype goes on as with a registered one; after a read
  through that descriptor (\<open>Via p k\<close>) the handler goes on with what \<open>p\<close> holds under \<open>k\<close>,
  which is left open (\<open>Continues p k\<close>).
\<close>

datatype 'a conversion = NotConverted | Converted 'a | Continues ElementInfo string

definition downcastTemplateElement ::
  "TemplateEditing \<Rightarrow> string list \<Rightarrow> (ElementInfo \<Rightarrow> model_element \<Rightarrow> view_element)
     \<Rightarrow> model_element \<Rightarrow> view_element conversion" where
  "downcastTemplateElement this types view modelElement =
     (case js_get (prototype this) (elements this) (model_name modelElement) of
        Own templateElement \<Rightarrow>
          if type templateElement \<in> set types
          then Converted (view templateElement modelElement) else NotConverted
      | Prototype templateElement \<Rightarrow>
          if type templateElement \<in> set types
          then Converted (view templateElement modelElement) else NotConverted
      | Inherited _ \<Rightarrow> NotConverted
      | Undefined \<Rightarrow> NotConverted
      | Via p k \<Rightarrow> Continues p k)"

definition upcastTemplateElement ::
  "(ElementInfo \<Rightarrow> view_element \<Rightarrow> bool) \<Rightarrow> TemplateEditing \<Rightarrow> string list
     \<Rightarrow> (ElementInfo \<Rightarrow> view_element \<Rightarrow> model_element) \<Rightarrow> view_element \<Rightarrow> model_element option" where
  "upcastTemplateElement matches this types model viewElement =
     (case findMatchingTemplateElement matches this viewElement types of
        None \<Rightarrow> None
      | Some templateElement \<Rightarrow> Some (model templateElement viewElement))"

text \<open>
  The three conversions \<^verbatim>\<open>init\<close> adds (lines 117 to 148): the callbacks it writes, and the
  conversions they make with the type filters it gives, \<^verbatim>\<open>this._elementTypes\<close> for the upcast
  and the data downcast, \<^verbatim>\<open>[ 'element' ]\<close> for the editing downcast. \<^verbatim>\<open>init\<close> adds them through
  the functions \<^verbatim>\<open>upcastTemplateElement\<close> and \<^verbatim>\<open>downcastTemplateElement\<close> of \<^verbatim>\<open>./utils/conversion\<close>,
  which take the editor and the configuration; the methods of the same names above, which
  refer to them, are taken for what they do. \<^verbatim>\<open>getViewAttributes\<close> and \<^verbatim>\<open>getModelAttributes\<close> are
  imported from \<^verbatim>\<open>./utils/conversion\<close> and are parameters here.
\<close>

definition upcast_model ::
  "(ElementInfo \<Rightarrow> view_element \<Rightarrow> (string \<times> string) list) \<Rightarrow> ElementInfo \<Rightarrow> view_element
     \<Rightarrow> model_element" where
  "upcast_model getViewAttributes templateElement viewElement =
     createElement (name templateElement) (getViewAttributes templateElement viewElement)"

definition dataDowncast_view ::
  "(ElementInfo \<Rightarrow> model_element \<Rightarrow> (string \<times> string) list) \<Rightarrow> ElementInfo \<Rightarrow> model_element
     \<Rightarrow> view_element" where
  "dataDowncast_view getModelAttributes templateElement modelElement =
     createContainerElement (tagName templateElement)
       (getModelAttributes templateElement modelElement)"

definition editingDowncast_view ::
  "(ElementInfo \<Rightarrow> model_element \<Rightarrow> (string \<times> string) list) \<Rightarrow> ElementInfo \<Rightarrow> model_element
     \<Rightarrow> view_element" where
  "editingDowncast_view getModelAttributes templateElement modelElement =
     (let el = createContainerElement (tagName templateElement)
                 (getModelAttributes templateElement modelElement)
      in if parent templateElement \<noteq> None then el else toWidget el)"


definition dataDowncast ::
  "(ElementInfo \<Rightarrow> model_element \<Rightarrow> (string \<times> string) list) \<Rightarrow> TemplateEditing
     \<Rightarrow> model_element \<Rightarrow> view_element conversion" where
  "dataDowncast getModelAttributes this =
     downcastTemplateElement this (elementTypes this) (dataDowncast_view getModelAttributes)"

definition editingDowncast ::
  "(ElementInfo \<Rightarrow> model_element \<Rightarrow> (string \<times> string) list) \<Rightarrow> TemplateEditing
     \<Rightarrow> model_element \<Rightarrow> view_element conversion" where
  "editingDowncast getModelAttributes this =
     downcastTemplateElement this [''element''] (editingDowncast_view getModelAttributes)"

section \<open>The constructor calls of a registration\<close>

text \<open>
  The arguments of the \<^verbatim>\<open>new ElementInfo( dom, parent )\<close> evaluations that one call of
  \<^verbatim>\<open>_registerElement\<close> makes, in the order it makes them; what one evaluation of lines 210
  to 222 does to the plugin (\<open>register_one\<close>); and the same for the loop of \<^verbatim>\<open>init\<close>.
\<close>

fun calls :: "constructor \<Rightarrow> dom \<Rightarrow> ElementInfo option \<Rightarrow> (dom \<times> ElementInfo option) list" where
  "calls mk (Node nt tag attrs cs) par =
     (Node nt tag attrs cs, par) #
     concat (map (\<lambda>child. calls mk child (Some (mk (Node nt tag attrs cs) par)))
               (filter (\<lambda>node. nodeType node = 1) cs))"

definition constructed :: "constructor \<Rightarrow> (dom \<times> ElementInfo option) list \<Rightarrow> ElementInfo list" where
  "constructed mk cs = map (\<lambda>c. mk (fst c) (snd c)) cs"

definition schema_entry :: "constructor \<Rightarrow> dom \<times> ElementInfo option \<Rightarrow> schema_call" where
  "schema_entry mk c =
     Register (name (mk (fst c) (snd c)))
       \<lparr>isObject = True, isBlock = True,
        allowIn = (case snd c of Some p \<Rightarrow> name p | None \<Rightarrow> ''$root''),
        allowAttributes = Object_keys (attributes (mk (fst c) (snd c)))\<rparr>"

definition store :: "ElementInfo js_object \<Rightarrow> ElementInfo \<Rightarrow> ElementInfo js_object" where
  "store obj element = js_set obj (name element) element"

definition register_one ::
  "constructor \<Rightarrow> TemplateEditing \<Rightarrow> dom \<times> ElementInfo option \<Rightarrow> TemplateEditing" where
  "register_one mk this c =
     this\<lparr>elements := store (elements this) (mk (fst c) (snd c)),
          prototype := (if name (mk (fst c) (snd c)) = ''__proto__''
                        then Some (mk (fst c) (snd c)) else prototype this),
          typeMap := js_set (typeMap this) (type (mk (fst c) (snd c))) (name (mk (fst c) (snd c))),
          schema := schema this @ [schema_entry mk c]\<rparr>"

definition init_calls ::
  "(string \<Rightarrow> dom) \<Rightarrow> constructor \<Rightarrow> template js_object \<Rightarrow> (dom \<times> ElementInfo option) list" where
  "init_calls parseFromString mk templates =
     concat (map (\<lambda>(n, t). calls mk (setAttribute (parseFromString (template t)) ''ck-name'' n) None)
               (own_properties templates))"

text \<open>
  A key that \<^verbatim>\<open>Object.values\<close> lists in creation order and that an assignment stores as an
  own property.
\<close>

definition plain_key :: "string \<Rightarrow> bool" where
  "plain_key k = (\<not> is_array_index k \<and> k \<noteq> ''__proto__'')"

text \<open>The names a \<^verbatim>\<open>schema.extend\<close> call of the plugin has allowed the item \<open>n\<close> in.\<close>

definition extended :: "TemplateEditing \<Rightarrow> string \<Rightarrow> string list" where
  "extended this n =
     concat (map (\<lambda>c. case c of Extend m xs \<Rightarrow> if m = n then xs else [] | Register _ _ \<Rightarrow> [])
               (schema this))"

section \<open>A sample parser, constructor and matcher\<close>

text \<open>
  Concrete values for the parameters, used where a theorem is evaluated at an input. The
  parser knows three documents and answers with a \<^verbatim>\<open>parsererror\<close> document for anything else
  (a browser answers markup that is not well-formed with such a document, or with the part
  it could parse and a \<^verbatim>\<open>parsererror\<close> element in it). The constructor names a root
  \<^verbatim>\<open>ck__\<close> followed by its \<^verbatim>\<open>ck-name\<close> (the names line 113 of the plugin expects) and a
  nested element after its parent and tag; the matcher compares tag names.
\<close>

definition parsererror :: dom where
  "parsererror = Node 1 ''parsererror'' [] [Node 3 ''#text'' [] []]"

definition sample_parse :: "string \<Rightarrow> dom" where
  "sample_parse markup =
     (if markup = ''<div/>'' then Node 1 ''div'' [] []
      else if markup = ''<div><p/></div>'' then Node 1 ''div'' [] [Node 1 ''p'' [] []]
      else if markup = ''<div>a<!--b--><p/></div>''
        then Node 1 ''div'' [] [Node 3 ''#text'' [] [], Node 8 ''#comment'' [] [], Node 1 ''p'' [] []]
      else parsererror)"

definition sample_ElementInfo :: constructor where
  "sample_ElementInfo d par =
     ElementInfo
       ((case par of None \<Rightarrow> ''ck'' | Some p \<Rightarrow> name p) @ ''__'' @
        (case map_of (domAttributes d) ''ck-name'' of Some n \<Rightarrow> n | None \<Rightarrow> domTagName d))
       ''element'' (domTagName d) [] par"

definition sample_matches :: "ElementInfo \<Rightarrow> view_element \<Rightarrow> bool" where
  "sample_matches el viewElement = (view_name viewElement = tagName el)"

definition sample_templates :: "template js_object" where
  "sample_templates =
     [(''simple'', \<lparr>label = ''Simple'', template = ''<div/>''\<rparr>),
      (''complex'', \<lparr>label = ''Complex'', template = ''<div><p/></div>''\<rparr>)]"

definition ck_simple :: ElementInfo where
  "ck_simple = ElementInfo ''ck__simple'' ''element'' ''div'' [] None"

definition ck_complex :: ElementInfo where
  "ck_complex = ElementInfo ''ck__complex'' ''element'' ''div'' [] None"

definition ck_complex_p :: ElementInfo where
  "ck_complex_p = ElementInfo ''ck__complex__p'' ''element'' ''p'' [] (Some ck_complex)"

definition div_view :: view_element where
  "div_view = \<lparr>view_name = ''div'', view_attributes = [], widget = False\<rparr>"


definition broken_templates :: "template js_object" where
  "broken_templates = [(''broken'', \<lparr>label = ''Broken'', template = ''<div>''\<rparr>)]"

definition noisy_div :: dom where
  "noisy_div =
     Node 1 ''div'' [] [Node 3 ''#text'' [] [], Node 8 ''#comment'' [] [], Node 1 ''p'' [] []]"

definition span_view :: view_element where
  "span_view = \<lparr>view_name = ''span'', view_attributes = [], widget = False\<rparr>"

text \<open>A configuration written with the definition \<^verbatim>\<open>b\<close> before the definition \<^verbatim>\<open>2\<close>.\<close>

definition index_templates :: "template js_object" where
  "index_templates =
     [(''b'', \<lparr>label = ''B'', template = ''<div/>''\<rparr>),
      (''2'', \<lparr>label = ''Two'', template = ''<div/>''\<rparr>)]"

definition ck_2 :: ElementInfo where
  "ck_2 = ElementInfo ''ck__2'' ''element'' ''div'' [] None"

definition ck_b :: ElementInfo where
  "ck_b = ElementInfo ''ck__b'' ''element'' ''div'' [] None"

definition mixed_templates :: "template js_object" where
  "mixed_templates =
     [(''simple'', \<lparr>label = ''Simple'', template = ''<div/>''\<rparr>),
      (''broken'', \<lparr>label = ''Broken'', template = ''<div>''\<rparr>)]"

definition ck_broken :: ElementInfo where
  "ck_broken = ElementInfo ''ck__broken'' ''element'' ''parsererror'' [] None"

text \<open>
  A host whose schema refuses to register a name that it holds, a host that refuses every
  call, and a configuration in which the root of the second definition gets the name of the
  nested element of the first.
\<close>

definition registered :: "schema_call list \<Rightarrow> string list" where
  "registered log = concat (map (\<lambda>c. case c of Register n _ \<Rightarrow> [n] | Extend _ _ \<Rightarrow> []) log)"

definition sample_host :: host where
  "sample_host log c =
     (case c of Register n _ \<Rightarrow> n \<notin> set (registered log) | Extend _ _ \<Rightarrow> True)"

definition refusing_host :: host where
  "refusing_host log c = False"

definition colliding_templates :: "template js_object" where
  "colliding_templates =
     [(''a'', \<lparr>label = ''A'', template = ''<div><p/></div>''\<rparr>),
      (''a__p'', \<lparr>label = ''P'', template = ''<div/>''\<rparr>)]"

text \<open>
  A constructor that takes the type of a descriptor from the attribute \<^verbatim>\<open>ck-type\<close> of the node
  (\<^verbatim>\<open>element\<close> without it), and the registry of a template whose nested element is of the
  type \<^verbatim>\<open>placeholder\<close>.
\<close>

definition typed_ElementInfo :: constructor where
  "typed_ElementInfo d par =
     ElementInfo
       ((case par of None \<Rightarrow> ''ck'' | Some p \<Rightarrow> name p) @ ''__'' @
        (case map_of (domAttributes d) ''ck-name'' of Some n \<Rightarrow> n | None \<Rightarrow> domTagName d))
       (case map_of (domAttributes d) ''ck-type'' of Some t \<Rightarrow> t | None \<Rightarrow> ''element'')
       (domTagName d) [] par"

definition card_dom :: dom where
  "card_dom = Node 1 ''div'' [(''ck-name'', ''card'')]
                [Node 1 ''span'' [(''ck-type'', ''placeholder'')] []]"

definition ck_card :: ElementInfo where
  "ck_card = ElementInfo ''ck__card'' ''element'' ''div'' [] None"

definition ck_card_span :: ElementInfo where
  "ck_card_span = ElementInfo ''ck__card__span'' ''placeholder'' ''span'' [] (Some ck_card)"

definition card_plugin :: TemplateEditing where
  "card_plugin = registerElement typed_ElementInfo card_dom None new_TemplateEditing"

section \<open>The name of a root, from the spec\<close>


section \<open>The conversion helpers and the matcher, from the spec\<close>









section \<open>The integrity postfixer, from the spec\<close>

text \<open>
  Modelled from the spec: \<^verbatim>\<open>postfixTemplateElement\<close> and \<^verbatim>\<open>prepareTemplateElementPostfixer\<close> of
  \<^verbatim>\<open>./utils/integrity\<close>, which the plugin only hands to the host (lines 104 to 107). The
  spec's descriptor (3) has a name and an ordered sequence of child descriptors; a model
  node has a name and an ordered list of child nodes.
\<close>

datatype descriptor = Descriptor (descriptor_name: string) (children: "descriptor list")

datatype model_node = ModelNode (node_name: string) (node_children: "model_node list")

text \<open>
  Modelled from the spec (4.3, step 2): "a freshly constructed node of type \<open>Dc.name\<close>
  (recursively materializing its own required descendants)".
\<close>

fun materialize :: "descriptor \<Rightarrow> model_node" where
  "materialize (Descriptor n ds) = ModelNode n (map materialize ds)"

text \<open>
  Modelled from the spec (4.3): the repair of one node whose name resolves to a descriptor
  \<open>D\<close> with a non-empty sequence of children. An actual child whose name is the name of no
  child of \<open>D\<close> is removed (step 3). Then the children of \<open>D\<close> are walked in order (step 1):
  when the position holds a node of the name of the required child, the repair goes on
  inside that node (step 4); when it does not, a fresh node is inserted at the position
  (step 2). The answer holds the node after the repair and the nodes the repair touched: a
  node is touched when a child was inserted into it or removed from it.
\<close>

fun repair_node :: "descriptor \<Rightarrow> model_node \<Rightarrow> model_node \<times> model_node list"
  and repair_children ::
    "descriptor list \<Rightarrow> model_node list \<Rightarrow> model_node list \<times> model_node list \<times> nat" where
  "repair_node (Descriptor n ds) (ModelNode m actual) =
     (if ds = [] then (ModelNode m actual, [])
      else
        (let kept = filter (\<lambda>a. node_name a \<in> set (map descriptor_name ds)) actual;
             (cs, below, inserted) = repair_children ds kept
         in (ModelNode m cs,
             (if length kept < length actual \<or> 0 < inserted then [ModelNode m cs] else [])
             @ below)))"
| "repair_children [] actual = (actual, [], 0)"
| "repair_children (d # ds) [] =
     (let (cs, below, inserted) = repair_children ds []
      in (materialize d # cs, below, Suc inserted))"
| "repair_children (d # ds) (a # actual) =
     (if node_name a = descriptor_name d
      then (let (a', below_a) = repair_node d a;
                (cs, below, inserted) = repair_children ds actual
            in (a' # cs, below_a @ below, inserted))
      else (let (cs, below, inserted) = repair_children ds (a # actual)
            in (materialize d # cs, below, Suc inserted)))"

text \<open>
  Modelled from the spec (4.3): \<^verbatim>\<open>repair(changedNodes)\<close>, with the registry's \<^verbatim>\<open>lookupByName\<close>
  as a parameter. It answers with the changed nodes after the repair and with the nodes it
  touched. The changed nodes are taken as separate subtrees.
\<close>

fun repair ::
  "(string \<Rightarrow> descriptor option) \<Rightarrow> model_node list \<Rightarrow> model_node list \<times> model_node list" where
  "repair lookupByName [] = ([], [])"
| "repair lookupByName (n # changed) =
     (let (n', touched_n) = (case lookupByName (node_name n) of
                               None \<Rightarrow> (n, [])
                             | Some D \<Rightarrow> repair_node D n);
          (ns, touched) = repair lookupByName changed
      in (n' # ns, touched_n @ touched))"

text \<open>
  Modelled from the spec (3): a node is consistent with its descriptor when its children
  are "exactly one structurally valid node per descriptor child, in descriptor order".
\<close>

fun consistent :: "descriptor \<Rightarrow> model_node \<Rightarrow> bool" where
  "consistent (Descriptor n ds) (ModelNode m actual) =
     (ds = [] \<or> list_all2 (\<lambda>d a. node_name a = descriptor_name d \<and> consistent d a) ds actual)"

text \<open>
  Modelled from the spec (3): "\<open>name\<close> is globally unique across the registry", so the name
  of a descriptor of the registry, nested or not, resolves to that descriptor.
\<close>

fun descendants :: "descriptor \<Rightarrow> descriptor list" where
  "descendants (Descriptor n ds) = Descriptor n ds # concat (map descendants ds)"

definition unique_names :: "(string \<Rightarrow> descriptor option) \<Rightarrow> bool" where
  "unique_names lookupByName =
     (\<forall>n D d. lookupByName n = Some D \<longrightarrow> d \<in> set (descendants D)
        \<longrightarrow> lookupByName (descriptor_name d) = Some d)"

text \<open>A touched node needs no further repair under the descriptor its name resolves to.\<close>

definition settled :: "descriptor \<Rightarrow> model_node \<Rightarrow> bool" where
  "settled d t = (\<exists>d' \<in> set (descendants d). node_name t = descriptor_name d'
                    \<and> repair_node d' t = (t, []))"

text \<open>The registry of a template with one required child, and a node of it that lost the child and got a foreign one.\<close>

definition child_descriptor :: descriptor where
  "child_descriptor = Descriptor ''child'' []"

definition parent_descriptor :: descriptor where
  "parent_descriptor = Descriptor ''parent'' [child_descriptor]"

definition sample_lookup :: "string \<Rightarrow> descriptor option" where
  "sample_lookup n =
     (if n = ''parent'' then Some parent_descriptor
      else if n = ''child'' then Some child_descriptor
      else None)"

definition broken_node :: model_node where
  "broken_node = ModelNode ''parent'' [ModelNode ''paragraph'' []]"

definition repaired_node :: model_node where
  "repaired_node = ModelNode ''parent'' [ModelNode ''child'' []]"

section \<open>Enumeration and assignment\<close>

lemma update_fresh: "k \<notin> fst ` set al \<Longrightarrow> AList.update k v al = al @ [(k, v)]"
  by (induction al) auto

lemma filter_all: "list_all P xs \<Longrightarrow> filter P xs = xs"
  by (induction xs) auto

lemma filter_none: "list_all (\<lambda>x. \<not> P x) xs \<Longrightarrow> filter P xs = []"
  by (induction xs) auto

lemma own_properties_plain:
  "list_all (\<lambda>p. \<not> is_array_index (fst p)) obj \<Longrightarrow> own_properties obj = obj"
  unfolding own_properties_def by (simp add: filter_all filter_none)

lemma set_own_properties: "set (own_properties obj) = set obj"
  by (auto simp: own_properties_def)

lemma store_all_fresh:
  assumes "distinct (map name es)" and "list_all (\<lambda>e. name e \<noteq> ''__proto__'') es"
    and "name ` set es \<inter> fst ` set obj = {}"
  shows "foldl store obj es = obj @ map (\<lambda>e. (name e, e)) es"
  using assms
proof (induction es arbitrary: obj)
  case Nil
  then show ?case by simp
next
  case (Cons e es)
  have "store obj e = obj @ [(name e, e)]"
    using Cons.prems by (simp add: store_def js_set_def update_fresh)
  moreover have "name ` set es \<inter> fst ` set (obj @ [(name e, e)]) = {}"
    using Cons.prems by auto
  ultimately show ?case
    using Cons.IH [of "obj @ [(name e, e)]"] Cons.prems by simp
qed

lemma Object_values_registered:
  assumes "distinct (map name es)" and "list_all (\<lambda>e. plain_key (name e)) es"
  shows "Object_values (foldl store [] es) = es"
proof -
  have "list_all (\<lambda>e. name e \<noteq> ''__proto__'') es"
    using assms(2) by (simp add: list_all_iff plain_key_def)
  then have "foldl store [] es = map (\<lambda>e. (name e, e)) es"
    using store_all_fresh [of es "[]"] assms(1) by simp
  moreover have "list_all (\<lambda>p. \<not> is_array_index (fst p)) (map (\<lambda>e. (name e, e)) es)"
    using assms(2) by (simp add: list_all_iff plain_key_def)
  ultimately show ?thesis
    by (simp add: Object_values_def own_properties_plain comp_def)
qed

section \<open>Registration as a sequence of constructor calls\<close>

lemma foldl_children:
  assumes "\<And>c s. c \<in> set cs \<Longrightarrow> f c s = foldl g s (h c)"
  shows "foldl (\<lambda>s c. f c s) s0 cs = foldl g s0 (concat (map h cs))"
  using assms by (induction cs arbitrary: s0) auto

lemma registerElement_calls:
  "registerElement mk d par this = foldl (register_one mk) this (calls mk d par)"
proof (induction mk d par this rule: registerElement.induct)
  case (1 mk nt tag attrs cs par this)
  define element where "element = mk (Node nt tag attrs cs) par"
  define this2 where "this2 = register_one mk this (Node nt tag attrs cs, par)"
  have step: "registerElement mk child (Some element) s
                = foldl (register_one mk) s (calls mk child (Some element))"
    if "child \<in> set (filter (\<lambda>node. nodeType node = 1) cs)" for child s
    using 1 [OF element_def [symmetric, THEN sym] refl refl that] .
  have "registerElement mk (Node nt tag attrs cs) par this
          = foldl (\<lambda>s child. registerElement mk child (Some element) s) this2
              (filter (\<lambda>node. nodeType node = 1) cs)"
    by (simp add: Let_def element_def this2_def register_one_def store_def schema_entry_def)
  also have "\<dots> = foldl (register_one mk) this2
                      (concat (map (\<lambda>child. calls mk child (Some element))
                                 (filter (\<lambda>node. nodeType node = 1) cs)))"
    by (rule foldl_children) (rule step)
  finally show ?case
    by (simp add: this2_def element_def)
qed

lemma elements_register_all:
  "elements (foldl (register_one mk) this cs) = foldl store (elements this) (constructed mk cs)"
  by (induction cs arbitrary: this) (simp_all add: constructed_def register_one_def)

lemma schema_register_all:
  "schema (foldl (register_one mk) this cs) = schema this @ map (schema_entry mk) cs"
  by (induction cs arbitrary: this) (simp_all add: register_one_def)

lemma init_loop_calls:
  "foldl (\<lambda>s (n, t). registerElement mk
                        (setAttribute (parseFromString (template t)) ''ck-name'' n) None s) this ps
     = foldl (register_one mk) this
         (concat (map (\<lambda>(n, t). calls mk (setAttribute (parseFromString (template t)) ''ck-name'' n) None) ps))"
  by (induction ps arbitrary: this) (auto simp: registerElement_calls)

lemma elements_init:
  "elements (init parseFromString mk templates this)
     = foldl store (elements this) (constructed mk (init_calls parseFromString mk templates))"
  by (simp add: init_def Let_def init_loop_calls init_calls_def elements_register_all)

lemma schema_init:
  "schema (init parseFromString mk templates this)
     = schema this @ map (schema_entry mk) (init_calls parseFromString mk templates)
       @ [Extend ''$text'' (map (\<lambda>key. ''ck__'' @ key) (Object_keys templates))]"
  by (simp add: init_def Let_def init_loop_calls init_calls_def schema_register_all)

section \<open>The sample configuration\<close>

lemma not_index_sample:
  "\<not> is_array_index ''simple''" "\<not> is_array_index ''complex''" "\<not> is_array_index ''broken''"
  by (simp_all add: is_array_index_def is_digit_def)

lemma plain_sample:
  "plain_key ''ck__simple''" "plain_key ''ck__complex''" "plain_key ''ck__complex__p''"
  by (simp_all add: plain_key_def is_array_index_def is_digit_def)

lemma own_properties_sample: "own_properties sample_templates = sample_templates"
  by (rule own_properties_plain) (simp add: sample_templates_def not_index_sample)

lemma init_calls_sample:
  "init_calls sample_parse sample_ElementInfo sample_templates
     = [(Node 1 ''div'' [(''ck-name'', ''simple'')] [], None),
        (Node 1 ''div'' [(''ck-name'', ''complex'')] [Node 1 ''p'' [] []], None),
        (Node 1 ''p'' [] [], Some ck_complex)]"
  by (simp add: init_calls_def own_properties_sample)
     (simp add: sample_templates_def sample_parse_def sample_ElementInfo_def ck_complex_def)

lemma constructed_sample:
  "constructed sample_ElementInfo (init_calls sample_parse sample_ElementInfo sample_templates)
     = [ck_simple, ck_complex, ck_complex_p]"
  by (simp add: init_calls_sample constructed_def)
     (simp add: sample_ElementInfo_def ck_simple_def ck_complex_def ck_complex_p_def)

lemma elements_sample:
  "elements (init sample_parse sample_ElementInfo sample_templates new_TemplateEditing)
     = [(''ck__simple'', ck_simple), (''ck__complex'', ck_complex),
        (''ck__complex__p'', ck_complex_p)]"
  by (simp add: elements_init constructed_sample new_TemplateEditing_def)
     (simp add: store_def js_set_def ck_simple_def ck_complex_def ck_complex_p_def)

lemma Object_values_sample:
  "Object_values (elements (init sample_parse sample_ElementInfo sample_templates new_TemplateEditing))
     = [ck_simple, ck_complex, ck_complex_p]"
proof -
  have "own_properties (elements (init sample_parse sample_ElementInfo sample_templates new_TemplateEditing))
          = elements (init sample_parse sample_ElementInfo sample_templates new_TemplateEditing)"
    using plain_sample by (intro own_properties_plain) (simp add: elements_sample plain_key_def)
  then show ?thesis
    by (simp add: Object_values_def) (simp add: elements_sample)
qed

lemma prototype_register_all:
  "prototype (foldl (register_one mk) this cs)
     = foldl (\<lambda>p e. if name e = ''__proto__'' then Some e else p) (prototype this)
         (constructed mk cs)"
  by (induction cs arbitrary: this) (simp_all add: constructed_def register_one_def)

lemma prototype_init:
  "prototype (init parseFromString mk templates this)
     = foldl (\<lambda>p e. if name e = ''__proto__'' then Some e else p) (prototype this)
         (constructed mk (init_calls parseFromString mk templates))"
  by (simp add: init_def Let_def init_loop_calls init_calls_def prototype_register_all)

lemma prototype_sample:
  "prototype (init sample_parse sample_ElementInfo sample_templates new_TemplateEditing) = None"
  by (simp add: prototype_init constructed_sample new_TemplateEditing_def)
     (simp add: ck_simple_def ck_complex_def ck_complex_p_def)

lemma not_index_ck: "\<not> is_array_index (CHR ''c'' # s)"
  by (simp add: is_array_index_def is_digit_def)

lemma map_fst_insort_key:
  "map fst (insort_key (\<lambda>p. f (fst p)) x xs) = insort_key f (fst x) (map fst xs)"
  by (induction xs) simp_all

lemma map_fst_sort_key:
  "map fst (sort_key (\<lambda>p. f (fst p)) xs) = sort_key f (map fst xs)"
  by (induction xs) (simp_all add: map_fst_insort_key)

lemma Object_keys_order:
  "Object_keys obj
     = sort_key digits_value (filter is_array_index (map fst obj))
       @ filter (\<lambda>k. \<not> is_array_index k) (map fst obj)"
  by (simp add: Object_keys_def own_properties_def map_fst_sort_key filter_map comp_def)

section \<open>Lookup\<close>

lemma getElementInfo_unregistered:
  "n \<notin> fst ` set (elements this) \<Longrightarrow> prototype this = None \<Longrightarrow> n \<notin> set Object_prototype
     \<Longrightarrow> getElementInfo this n = Undefined"
proof -
  assume "n \<notin> fst ` set (elements this)" and p: "prototype this = None" "n \<notin> set Object_prototype"
  then have "map_of (elements this) n = None"
    by (simp add: map_of_eq_None_iff)
  with p show ?thesis
    by (simp add: getElementInfo_def js_get_def)
qed

lemma getElementsByType_empty:
  "list_all (\<lambda>el. type el \<noteq> t) (Object_values (elements this))
     \<Longrightarrow> getElementsByType this t = []"
  by (simp add: getElementsByType_def filter_none)

text \<open>
  C10. \<^verbatim>\<open>getElementInfo\<close> reads \<^verbatim>\<open>this._elements[ name ]\<close> on a plain object. For a name that
  is neither registered nor a property of \<^verbatim>\<open>Object.prototype\<close> (the prototype, unless a
  descriptor is named \<^verbatim>\<open>__proto__\<close>) the answer is \<^verbatim>\<open>undefined\<close>, and
  \<^verbatim>\<open>getElementsByType\<close> answers with the empty list for a type no registered descriptor has
  (the two lemmas above). For the unregistered name \<^verbatim>\<open>constructor\<close> the read finds the
  inherited property: on a plugin that has registered nothing, \<^verbatim>\<open>getElementInfo\<close> does not
  answer \<^verbatim>\<open>undefined\<close>.
\<close>

theorem getElementInfo_inherited:
  "getElementInfo new_TemplateEditing ''constructor'' = Inherited ''constructor''
   \<and> getElementInfo new_TemplateEditing ''constructor'' \<noteq> Undefined"
  by (simp add: getElementInfo_def new_TemplateEditing_def js_get_def Object_prototype_def)

section \<open>Registration\<close>

lemma calls_nested:
  "nodeType d = 1 \<Longrightarrow> par \<noteq> None
     \<Longrightarrow> list_all (\<lambda>c. nodeType (fst c) = 1 \<and> snd c \<noteq> None) (calls mk d par)"
proof (induction mk d par rule: calls.induct)
  case (1 mk nt tag attrs cs par)
  then show ?case
    by (auto simp: list_all_iff)
qed

lemma calls_tail:
  "list_all (\<lambda>c. nodeType (fst c) = 1 \<and> snd c \<noteq> None) (tl (calls mk d par))"
proof (cases d)
  case (Node nt tag attrs cs)
  have "list_all (\<lambda>c. nodeType (fst c) = 1 \<and> snd c \<noteq> None) (calls mk child (Some e))"
    if "child \<in> set (filter (\<lambda>node. nodeType node = 1) cs)" for child e
    using that by (intro calls_nested) simp_all
  then show ?thesis
    using Node by (simp add: list_all_iff)
qed

lemma calls_children:
  "list_all (\<lambda>child. nodeType child = 1 \<longrightarrow> (child, Some (mk d par)) \<in> set (calls mk d par))
     (childNodes d)"
proof (cases d)
  case (Node nt tag attrs cs)
  have "(child, Some e) \<in> set (calls mk child (Some e))" for child e
    by (cases child) simp
  then show ?thesis
    using Node by (auto simp: list_all_iff)
qed

text \<open>
  C9. \<^verbatim>\<open>_registerElement\<close> does lines 210 to 222 once for each constructor call of the
  registration. Every call after the first is for a DOM node of type 1 and has a parent
  descriptor; every child node of type 1 has its call, with the new descriptor as parent.
  So text nodes, comments and other non-element children give no descriptor.
\<close>

theorem registerElement_element_children_only:
  "registerElement mk d par this = foldl (register_one mk) this (calls mk d par)
   \<and> list_all (\<lambda>c. nodeType (fst c) = 1 \<and> snd c \<noteq> None) (tl (calls mk d par))
   \<and> list_all (\<lambda>child. nodeType child = 1 \<longrightarrow> (child, Some (mk d par)) \<in> set (calls mk d par))
       (childNodes d)"
  using registerElement_calls calls_tail calls_children by simp

text \<open>A \<^verbatim>\<open>div\<close> holding a text node, a comment and a \<^verbatim>\<open>p\<close>: two descriptors.\<close>

theorem registerElement_element_children_only_witness:
  "registerElement sample_ElementInfo noisy_div None new_TemplateEditing
     = foldl (register_one sample_ElementInfo) new_TemplateEditing
         [(noisy_div, None), (Node 1 ''p'' [] [], Some (sample_ElementInfo noisy_div None))]
   \<and> map fst (elements (registerElement sample_ElementInfo noisy_div None new_TemplateEditing))
     = [''ck__div'', ''ck__div__p'']"
proof -
  have c: "calls sample_ElementInfo noisy_div None
     = [(noisy_div, None), (Node 1 ''p'' [] [], Some (sample_ElementInfo noisy_div None))]"
    by (simp add: noisy_div_def)
  have r: "registerElement sample_ElementInfo noisy_div None new_TemplateEditing
     = foldl (register_one sample_ElementInfo) new_TemplateEditing
         [(noisy_div, None), (Node 1 ''p'' [] [], Some (sample_ElementInfo noisy_div None))]"
    using registerElement_element_children_only
      [of sample_ElementInfo noisy_div None new_TemplateEditing] c by simp
  have "map fst (elements (foldl (register_one sample_ElementInfo) new_TemplateEditing
         [(noisy_div, None), (Node 1 ''p'' [] [], Some (sample_ElementInfo noisy_div None))]))
     = [''ck__div'', ''ck__div__p'']"
    by (simp add: register_one_def store_def js_set_def new_TemplateEditing_def
          sample_ElementInfo_def noisy_div_def)
  with r show ?thesis by simp
qed

lemma Object_keys_sample: "Object_keys sample_templates = [''simple'', ''complex'']"
  by (simp add: Object_keys_def own_properties_sample) (simp add: sample_templates_def)

text \<open>
  C7. Each \<^verbatim>\<open>schema.register\<close> call of a registration is for one constructor call: the item is
  the name of the descriptor constructed, and \<^verbatim>\<open>allowIn\<close> is the name of the parent the
  descriptor was constructed with, or \<^verbatim>\<open>$root\<close> when it was constructed without one. \<^verbatim>\<open>init\<close>
  makes these calls for the roots (constructed without parent) and their descendants, and
  then one \<^verbatim>\<open>schema.extend\<close> call for \<^verbatim>\<open>$text\<close>.
\<close>

theorem registration_allowIn:
  "schema (registerElement mk d par this)
     = schema this @
       map (\<lambda>c. Register (name (mk (fst c) (snd c)))
                  \<lparr>isObject = True, isBlock = True,
                   allowIn = (case snd c of Some p \<Rightarrow> name p | None \<Rightarrow> ''$root''),
                   allowAttributes = Object_keys (attributes (mk (fst c) (snd c)))\<rparr>)
         (calls mk d par)
   \<and> schema (init parseFromString mk templates this)
     = schema this @
       map (\<lambda>c. Register (name (mk (fst c) (snd c)))
                  \<lparr>isObject = True, isBlock = True,
                   allowIn = (case snd c of Some p \<Rightarrow> name p | None \<Rightarrow> ''$root''),
                   allowAttributes = Object_keys (attributes (mk (fst c) (snd c)))\<rparr>)
         (init_calls parseFromString mk templates)
       @ [Extend ''$text'' (map (\<lambda>key. ''ck__'' @ key) (Object_keys templates))]"
proof -
  have "schema_entry mk = (\<lambda>c. Register (name (mk (fst c) (snd c)))
                  \<lparr>isObject = True, isBlock = True,
                   allowIn = (case snd c of Some p \<Rightarrow> name p | None \<Rightarrow> ''$root''),
                   allowAttributes = Object_keys (attributes (mk (fst c) (snd c)))\<rparr>)"
    by (rule ext) (simp add: schema_entry_def)
  then show ?thesis
    using schema_init [of parseFromString mk templates this]
      schema_register_all [of mk this "calls mk d par"]
    by (simp add: registerElement_calls)
qed

theorem registration_allowIn_witness:
  "schema (init sample_parse sample_ElementInfo sample_templates new_TemplateEditing)
     = [Register ''ck__simple''
          \<lparr>isObject = True, isBlock = True, allowIn = ''$root'', allowAttributes = []\<rparr>,
        Register ''ck__complex''
          \<lparr>isObject = True, isBlock = True, allowIn = ''$root'', allowAttributes = []\<rparr>,
        Register ''ck__complex__p''
          \<lparr>isObject = True, isBlock = True, allowIn = ''ck__complex'', allowAttributes = []\<rparr>,
        Extend ''$text'' [''ck__simple'', ''ck__complex'']]"
  using registration_allowIn [of sample_ElementInfo "Node 1 ''div'' [] []" None new_TemplateEditing
      sample_parse sample_templates]
  by (simp add: init_calls_sample Object_keys_sample new_TemplateEditing_def)
     (simp add: sample_ElementInfo_def ck_complex_def Object_keys_def own_properties_def)

section \<open>The roots of a configuration\<close>

lemma own_properties_broken: "own_properties broken_templates = broken_templates"
  by (rule own_properties_plain) (simp add: broken_templates_def not_index_sample)


lemma length_own_properties: "length (own_properties obj) = length obj"
proof -
  have "length (filter (\<lambda>p. is_array_index (fst p)) obj)
          + length (filter (\<lambda>p. \<not> is_array_index (fst p)) obj) = length obj"
    by (rule sum_length_filter_compl)
  then show ?thesis
    by (simp add: own_properties_def)
qed

lemma length_concat_nonempty:
  "list_all (\<lambda>x. f x \<noteq> []) xs \<Longrightarrow> length xs \<le> length (concat (map f xs))"
proof (induction xs)
  case Nil
  then show ?case by simp
next
  case (Cons x xs)
  then show ?case by (cases "f x") simp_all
qed

lemma calls_nonempty: "calls mk d par \<noteq> []"
  by (cases d) simp

lemma length_init_calls: "length templates \<le> length (init_calls parseFromString mk templates)"
proof -
  have "length (own_properties templates)
          \<le> length (concat (map (\<lambda>(n, t). calls mk (setAttribute (parseFromString (template t)) ''ck-name'' n) None)
               (own_properties templates)))"
    by (rule length_concat_nonempty) (simp add: list_all_iff calls_nonempty split_beta)
  then show ?thesis
    by (simp add: init_calls_def length_own_properties)
qed

lemma filter_calls_root:
  "filter (\<lambda>c. snd c = None) (calls mk d None) = [(d, None)]"
proof -
  have "calls mk d None = (d, None) # tl (calls mk d None)"
    by (cases d) simp
  moreover have "filter (\<lambda>c. snd c = None) (tl (calls mk d None)) = []"
    using calls_tail [of mk d None] by (intro filter_none) (simp add: list_all_iff)
  ultimately show ?thesis
    by (metis (mono_tags, lifting) filter.simps(2) snd_conv)
qed

lemma filter_init_calls:
  "filter (\<lambda>c. snd c = None) (concat (map (\<lambda>(n, t). calls mk (f n t) None) ps))
     = map (\<lambda>(n, t). (f n t, None)) ps"
  by (induction ps) (auto simp: filter_calls_root)

section \<open>Upcast matching\<close>

text \<open>
  C8. When no registered descriptor both accepts the view element and has its type in the
  filter, \<^verbatim>\<open>_findMatchingTemplateElement\<close> answers \<^verbatim>\<open>undefined\<close> and the upcast produces no
  model element: the view pattern of \<^verbatim>\<open>upcastTemplateElement\<close> is false, so the host goes on
  to its other converters.
\<close>

theorem upcastTemplateElement_none:
  assumes "list_all (\<lambda>el. \<not> (matches el viewElement \<and> type el \<in> set types))
             (Object_values (elements this))"
  shows "findMatchingTemplateElement matches this viewElement types = None
         \<and> upcastTemplateElement matches this types model viewElement = None"
  using assms
  by (simp add: findMatchingTemplateElement_def upcastTemplateElement_def filter_none)

theorem upcastTemplateElement_none_witness:
  "list_all (\<lambda>el. \<not> (sample_matches el span_view \<and> type el \<in> set [''element'']))
     (Object_values
        (elements (init sample_parse sample_ElementInfo sample_templates new_TemplateEditing)))
   \<and> findMatchingTemplateElement sample_matches
        (init sample_parse sample_ElementInfo sample_templates new_TemplateEditing)
        span_view [''element''] = None
   \<and> upcastTemplateElement sample_matches
        (init sample_parse sample_ElementInfo sample_templates new_TemplateEditing)
        [''element''] (upcast_model (\<lambda>el v. view_attributes v)) span_view = None"
proof -
  have h: "list_all (\<lambda>el. \<not> (sample_matches el span_view \<and> type el \<in> set [''element'']))
     (Object_values
        (elements (init sample_parse sample_ElementInfo sample_templates new_TemplateEditing)))"
    by (simp add: Object_values_sample)
       (simp add: sample_matches_def span_view_def ck_simple_def ck_complex_def ck_complex_p_def)
  show ?thesis
    using upcastTemplateElement_none [of sample_matches span_view "[''element'']"
        "init sample_parse sample_ElementInfo sample_templates new_TemplateEditing"
        "upcast_model (\<lambda>el v. view_attributes v)"] h
    by simp
qed

lemma own_properties_index: "own_properties index_templates = rev index_templates"
proof -
  have "is_array_index ''2''" "\<not> is_array_index ''b''"
    by (simp_all add: is_array_index_def is_digit_def digits_value_def)
  then show ?thesis
    by (simp add: own_properties_def index_templates_def)
qed

lemma elements_index:
  "elements (init sample_parse sample_ElementInfo index_templates new_TemplateEditing)
     = [(''ck__2'', ck_2), (''ck__b'', ck_b)]"
proof -
  have "init_calls sample_parse sample_ElementInfo index_templates
          = [(Node 1 ''div'' [(''ck-name'', ''2'')] [], None),
             (Node 1 ''div'' [(''ck-name'', ''b'')] [], None)]"
    by (simp add: init_calls_def own_properties_index)
       (simp add: index_templates_def sample_parse_def)
  then show ?thesis
    by (simp add: elements_init constructed_def new_TemplateEditing_def)
       (simp add: store_def js_set_def sample_ElementInfo_def ck_2_def ck_b_def)
qed

text \<open>
  C1, as the claim states it, fails. In a configuration written with the definition \<^verbatim>\<open>b\<close>
  first and the definition \<^verbatim>\<open>2\<close> second, \<^verbatim>\<open>Object.keys\<close> lists \<^verbatim>\<open>2\<close> first, so \<^verbatim>\<open>init\<close> registers
  the root of \<^verbatim>\<open>2\<close> before the root of \<^verbatim>\<open>b\<close>. Both roots accept a \<^verbatim>\<open>div\<close>, and the answer is the
  root of \<^verbatim>\<open>b\<close>: the one registered last, but the one defined first.
\<close>

theorem findMatchingTemplateElement_order_counterexample:
  "map fst index_templates = [''b'', ''2'']
   \<and> Object_keys index_templates = [''2'', ''b'']
   \<and> registered (schema (init sample_parse sample_ElementInfo index_templates new_TemplateEditing))
      = [''ck__2'', ''ck__b'']
   \<and> sample_ElementInfo (setAttribute (sample_parse ''<div/>'') ''ck-name'' ''b'') None = ck_b
   \<and> sample_ElementInfo (setAttribute (sample_parse ''<div/>'') ''ck-name'' ''2'') None = ck_2
   \<and> filter (\<lambda>el. sample_matches el div_view \<and> type el \<in> set [''element''])
        (Object_values (elements
           (init sample_parse sample_ElementInfo index_templates new_TemplateEditing)))
      = [ck_2, ck_b]
   \<and> findMatchingTemplateElement sample_matches
        (init sample_parse sample_ElementInfo index_templates new_TemplateEditing)
        div_view [''element''] = Some ck_b
   \<and> ck_b \<noteq> ck_2"
proof -
  have v: "Object_values (elements
           (init sample_parse sample_ElementInfo index_templates new_TemplateEditing))
         = [ck_2, ck_b]"
    by (simp add: elements_index Object_values_def own_properties_plain not_index_ck)
  have f: "filter (\<lambda>el. sample_matches el div_view \<and> type el \<in> set [''element''])
             [ck_2, ck_b] = [ck_2, ck_b]"
    by (simp add: sample_matches_def div_view_def ck_2_def ck_b_def)
  have "sample_ElementInfo (setAttribute (sample_parse ''<div/>'') ''ck-name'' ''b'') None = ck_b"
       "sample_ElementInfo (setAttribute (sample_parse ''<div/>'') ''ck-name'' ''2'') None = ck_2"
    by (simp_all add: sample_parse_def sample_ElementInfo_def ck_b_def ck_2_def)
  moreover have "ck_b \<noteq> ck_2"
    by (simp add: ck_b_def ck_2_def)
  moreover have "Object_keys index_templates = [''2'', ''b'']"
    by (simp add: Object_keys_def own_properties_index) (simp add: index_templates_def)
  moreover have "registered
       (schema (init sample_parse sample_ElementInfo index_templates new_TemplateEditing))
      = [''ck__2'', ''ck__b'']"
    by (simp add: schema_init init_calls_def own_properties_index registered_def
          new_TemplateEditing_def)
       (simp add: index_templates_def sample_parse_def schema_entry_def sample_ElementInfo_def)
  ultimately show ?thesis
    using v f by (simp add: findMatchingTemplateElement_def index_templates_def)
qed

text \<open>
  C1, amended. \<^verbatim>\<open>init\<close> registers the descriptors it constructs, in the order it constructs
  them (its \<^verbatim>\<open>schema.register\<close> calls are those of \<open>init_calls\<close>, in order). When their names
  are pairwise distinct and are plain keys (no array index, not \<^verbatim>\<open>__proto__\<close>),
  \<^verbatim>\<open>_findMatchingTemplateElement\<close> answers, for every view element and type filter, with the
  last registered descriptor among those whose matcher accepts the view element and whose
  type is in the filter (and with nothing when there is none). The roots are constructed
  in the order in which \<^verbatim>\<open>Object.keys\<close> lists the definitions: those named by an array index
  first, in ascending numeric order, then the others in the order they are written.
\<close>

theorem findMatchingTemplateElement_last_registered:
  assumes "distinct (map name (constructed mk (init_calls parseFromString mk templates)))"
    and "list_all (\<lambda>e. plain_key (name e))
           (constructed mk (init_calls parseFromString mk templates))"
  shows "findMatchingTemplateElement matches
           (init parseFromString mk templates new_TemplateEditing) viewElement types
         = (case filter (\<lambda>el. matches el viewElement \<and> type el \<in> set types)
                   (constructed mk (init_calls parseFromString mk templates)) of
              [] \<Rightarrow> None
            | ms \<Rightarrow> Some (last ms))
       \<and> schema (init parseFromString mk templates new_TemplateEditing)
         = map (schema_entry mk) (init_calls parseFromString mk templates)
           @ [Extend ''$text'' (map (\<lambda>key. ''ck__'' @ key) (Object_keys templates))]
       \<and> filter (\<lambda>c. snd c = None) (init_calls parseFromString mk templates)
         = map (\<lambda>(n, t). (setAttribute (parseFromString (template t)) ''ck-name'' n, None))
             (own_properties templates)
       \<and> map fst (own_properties templates)
         = sort_key digits_value (filter is_array_index (map fst templates))
           @ filter (\<lambda>k. \<not> is_array_index k) (map fst templates)"
proof -
  have "schema (init parseFromString mk templates new_TemplateEditing)
         = map (schema_entry mk) (init_calls parseFromString mk templates)
           @ [Extend ''$text'' (map (\<lambda>key. ''ck__'' @ key) (Object_keys templates))]"
    by (simp add: schema_init new_TemplateEditing_def)
  moreover
  have "filter (\<lambda>c. snd c = None) (init_calls parseFromString mk templates)
         = map (\<lambda>(n, t). (setAttribute (parseFromString (template t)) ''ck-name'' n, None))
             (own_properties templates)"
    unfolding init_calls_def by (rule filter_init_calls)
  moreover have "map fst (own_properties templates)
         = sort_key digits_value (filter is_array_index (map fst templates))
           @ filter (\<lambda>k. \<not> is_array_index k) (map fst templates)"
    using Object_keys_order [of templates] by (simp add: Object_keys_def)
  ultimately show ?thesis
    using Object_values_registered [OF assms]
    by (simp add: findMatchingTemplateElement_def elements_init new_TemplateEditing_def)
qed

text \<open>
  The configuration of the counterexample: the roots are constructed in the order \<^verbatim>\<open>2\<close>,
  \<^verbatim>\<open>b\<close>, and the answer for a \<^verbatim>\<open>div\<close> is the root of \<^verbatim>\<open>b\<close>.
\<close>

theorem findMatchingTemplateElement_last_registered_witness:
  "distinct (map name (constructed sample_ElementInfo
       (init_calls sample_parse sample_ElementInfo index_templates)))
   \<and> list_all (\<lambda>e. plain_key (name e)) (constructed sample_ElementInfo
       (init_calls sample_parse sample_ElementInfo index_templates))
   \<and> map fst (own_properties index_templates) = [''2'', ''b'']
   \<and> constructed sample_ElementInfo
        (init_calls sample_parse sample_ElementInfo index_templates) = [ck_2, ck_b]
   \<and> findMatchingTemplateElement sample_matches
        (init sample_parse sample_ElementInfo index_templates new_TemplateEditing)
        div_view [''element''] = Some ck_b"
proof -
  have c: "constructed sample_ElementInfo
        (init_calls sample_parse sample_ElementInfo index_templates) = [ck_2, ck_b]"
    by (simp add: init_calls_def own_properties_index constructed_def)
       (simp add: index_templates_def sample_parse_def sample_ElementInfo_def ck_2_def ck_b_def)
  have d: "distinct (map name (constructed sample_ElementInfo
       (init_calls sample_parse sample_ElementInfo index_templates)))"
    by (simp add: c) (simp add: ck_2_def ck_b_def)
  have p: "list_all (\<lambda>e. plain_key (name e)) (constructed sample_ElementInfo
       (init_calls sample_parse sample_ElementInfo index_templates))"
    by (simp add: c) (simp add: ck_2_def ck_b_def plain_key_def not_index_ck)
  have f: "filter (\<lambda>el. sample_matches el div_view \<and> type el \<in> set [''element''])
             [ck_2, ck_b] = [ck_2, ck_b]"
    by (simp add: sample_matches_def div_view_def ck_2_def ck_b_def)
  have o: "map fst (own_properties index_templates) = [''2'', ''b'']"
    by (simp add: own_properties_index) (simp add: index_templates_def)
  show ?thesis
    using findMatchingTemplateElement_last_registered
      [OF d p, of sample_matches div_view "[''element'']"] d p c f o
    by simp
qed

section \<open>What \<^verbatim>\<open>init\<close> registers\<close>

text \<open>
  A run in which the host accepts every call returns, with the plugin of \<open>init\<close>; a run over
  a configuration that is not empty has stored a descriptor when it ends, however it ends.
\<close>

lemma accepts_append:
  "accepts host log (xs @ ys) = (accepts host log xs \<and> accepts host (log @ xs) ys)"
  by (induction xs arbitrary: log) auto

lemma run_children:
  assumes "\<And>c s. c \<in> set cs \<Longrightarrow> accepts host (schema s) (tr c) \<Longrightarrow> f c s = Returned (g c s)"
    and "\<And>c s. schema (g c s) = schema s @ tr c"
    and "accepts host (schema s0) (concat (map tr cs))"
  shows "foldl (\<lambda>run c. case run of Returned s \<Rightarrow> f c s | Thrown s \<Rightarrow> Thrown s) (Returned s0) cs
           = Returned (foldl (\<lambda>s c. g c s) s0 cs)"
  using assms
proof (induction cs arbitrary: s0)
  case Nil
  then show ?case by simp
next
  case (Cons c cs)
  from Cons.prems(3) have a: "accepts host (schema s0) (tr c)"
    and b: "accepts host (schema (g c s0)) (concat (map tr cs))"
    by (simp_all add: accepts_append Cons.prems(2))
  have "f c s0 = Returned (g c s0)"
    using Cons.prems(1) [of c s0] a by simp
  moreover have "foldl (\<lambda>run c. case run of Returned s \<Rightarrow> f c s | Thrown s \<Rightarrow> Thrown s)
                   (Returned (g c s0)) cs = Returned (foldl (\<lambda>s c. g c s) (g c s0) cs)"
    using Cons.IH [of "g c s0"] Cons.prems(1,2) b by simp
  ultimately show ?case by simp
qed

lemma schema_registerElement:
  "schema (registerElement mk d par this) = schema this @ map (schema_entry mk) (calls mk d par)"
  by (simp add: registerElement_calls schema_register_all)

lemma registerElement_run_accepted:
  "accepts host (schema this) (map (schema_entry mk) (calls mk d par))
     \<Longrightarrow> registerElement_run host mk d par this = Returned (registerElement mk d par this)"
proof (induction d arbitrary: par this)
  case (Node nt tag attrs cs)
  define element where "element = mk (Node nt tag attrs cs) par"
  define this1 where "this1 = this\<lparr>elements := js_set (elements this) (name element) element,
                      prototype := (if name element = ''__proto__'' then Some element
                                    else prototype this),
                      typeMap := js_set (typeMap this) (type element) (name element)\<rparr>"
  define call where "call = schema_entry mk (Node nt tag attrs cs, par)"
  define this2 where "this2 = this1\<lparr>schema := schema this1 @ [call]\<rparr>"
  define kids where "kids = filter (\<lambda>node. nodeType node = 1) cs"
  have s1: "schema this1 = schema this" by (simp add: this1_def)
  from Node.prems have h: "host (schema this) call"
    and rest: "accepts host (schema this2)
                 (concat (map (\<lambda>child. map (schema_entry mk) (calls mk child (Some element))) kids))"
    by (simp_all add: call_def this2_def s1 element_def kids_def map_concat comp_def)
  have step: "registerElement_run host mk c (Some element) s
                = Returned (registerElement mk c (Some element) s)"
    if "c \<in> set kids" "accepts host (schema s) (map (schema_entry mk) (calls mk c (Some element)))"
    for c s
    using Node.IH [of c s "Some element"] that by (simp add: kids_def)
  have "foldl (\<lambda>run c. case run of
                   Returned s \<Rightarrow> registerElement_run host mk c (Some element) s
                 | Thrown s \<Rightarrow> Thrown s) (Returned this2) kids
          = Returned (foldl (\<lambda>s c. registerElement mk c (Some element) s) this2 kids)"
    by (rule run_children [where host = host
             and tr = "\<lambda>c. map (schema_entry mk) (calls mk c (Some element))"])
       (simp_all add: step schema_registerElement rest)
  moreover have "registerElement_run host mk (Node nt tag attrs cs) par this
      = foldl (\<lambda>run c. case run of
                   Returned s \<Rightarrow> registerElement_run host mk c (Some element) s
                 | Thrown s \<Rightarrow> Thrown s) (Returned this2) kids"
    using h
    unfolding registerElement_run.simps Let_def element_def this1_def this2_def call_def kids_def
      schema_entry_def
    by simp
  moreover have "registerElement mk (Node nt tag attrs cs) par this
      = foldl (\<lambda>s c. registerElement mk c (Some element) s) this2 kids"
    by (simp add: Let_def element_def this1_def this2_def call_def kids_def schema_entry_def)
  ultimately show ?case by simp
qed

lemma init_run_accepted:
  assumes "accepts host [] (schema (init parseFromString mk templates new_TemplateEditing))"
  shows "init_run host parseFromString mk templates new_TemplateEditing
           = Returned (init parseFromString mk templates new_TemplateEditing)"
proof -
  define root where "root = (\<lambda>p :: string \<times> template.
     setAttribute (parseFromString (template (snd p))) ''ck-name'' (fst p))"
  define call where "call = Extend ''$text'' (map (\<lambda>key. ''ck__'' @ key) (Object_keys templates))"
  define loop where "loop = foldl (\<lambda>s p. registerElement mk (root p) None s) new_TemplateEditing
                              (own_properties templates)"
  have i: "init parseFromString mk templates new_TemplateEditing
             = loop\<lparr>schema := schema loop @ [call]\<rparr>"
    unfolding init_def Let_def loop_def root_def call_def split_def ..
  have c: "init_calls parseFromString mk templates
             = concat (map (\<lambda>p. calls mk (root p) None) (own_properties templates))"
    unfolding init_calls_def root_def split_def ..
  have n: "schema new_TemplateEditing = []"
    by (simp add: new_TemplateEditing_def)
  have l: "schema loop = map (schema_entry mk) (init_calls parseFromString mk templates)"
    using schema_init [of parseFromString mk templates new_TemplateEditing]
    by (simp add: i n)
  from assms have a: "accepts host (schema new_TemplateEditing)
       (concat (map (\<lambda>p. map (schema_entry mk) (calls mk (root p) None)) (own_properties templates)))"
    and h: "host (schema loop) call"
    by (simp_all add: i l n accepts_append c map_concat comp_def)
  have "foldl (\<lambda>run p. case run of
                  Returned s \<Rightarrow> registerElement_run host mk (root p) None s
                | Thrown s \<Rightarrow> Thrown s) (Returned new_TemplateEditing) (own_properties templates)
          = Returned loop"
    unfolding loop_def
    by (rule run_children [where host = host
             and tr = "\<lambda>p. map (schema_entry mk) (calls mk (root p) None)"])
       (simp_all add: registerElement_run_accepted schema_registerElement a)
  moreover have "init_run host parseFromString mk templates new_TemplateEditing
     = (case foldl (\<lambda>run p. case run of
                  Returned s \<Rightarrow> registerElement_run host mk (root p) None s
                | Thrown s \<Rightarrow> Thrown s) (Returned new_TemplateEditing) (own_properties templates) of
          Returned this1 \<Rightarrow>
            if host (schema this1) call then Returned (this1\<lparr>schema := schema this1 @ [call]\<rparr>)
            else Thrown this1
        | Thrown s \<Rightarrow> Thrown s)"
    unfolding init_run_def Let_def root_def call_def split_def ..
  ultimately show ?thesis
    using h by (simp add: i)
qed

lemma final_children:
  assumes "\<And>c s. c \<in> set cs \<Longrightarrow> P (final (f c s))" and "P (final r0)"
  shows "P (final (foldl (\<lambda>run c. case run of Returned s \<Rightarrow> f c s | Thrown s \<Rightarrow> Thrown s) r0 cs))"
  using assms
proof (induction cs arbitrary: r0)
  case Nil
  then show ?case by simp
next
  case (Cons c cs)
  have "P (final (case r0 of Returned s \<Rightarrow> f c s | Thrown s \<Rightarrow> Thrown s))"
    using Cons.prems by (cases r0) simp_all
  then show ?case
    using Cons.IH [of "case r0 of Returned s \<Rightarrow> f c s | Thrown s \<Rightarrow> Thrown s"] Cons.prems(1)
    by simp
qed

lemma registerElement_run_stored:
  "elements (final (registerElement_run host mk d par this)) \<noteq> []
   \<or> prototype (final (registerElement_run host mk d par this)) \<noteq> None"
proof -
  define P where "P = (\<lambda>s :: TemplateEditing. elements s \<noteq> [] \<or> prototype s \<noteq> None)"
  have "P (final (registerElement_run host mk d par this))"
  proof (induction d arbitrary: par this)
    case (Node nt tag attrs cs)
    define element where "element = mk (Node nt tag attrs cs) par"
    define this1 where "this1 = this\<lparr>elements := js_set (elements this) (name element) element,
                        prototype := (if name element = ''__proto__'' then Some element
                                      else prototype this),
                        typeMap := js_set (typeMap this) (type element) (name element)\<rparr>"
    define call where "call = schema_entry mk (Node nt tag attrs cs, par)"
    define this2 where "this2 = this1\<lparr>schema := schema this1 @ [call]\<rparr>"
    define kids where "kids = filter (\<lambda>node. nodeType node = 1) cs"
    have r: "registerElement_run host mk (Node nt tag attrs cs) par this
        = (if host (schema this1) call
           then foldl (\<lambda>run c. case run of
                     Returned s \<Rightarrow> registerElement_run host mk c (Some element) s
                   | Thrown s \<Rightarrow> Thrown s) (Returned this2) kids
           else Thrown this1)"
      unfolding registerElement_run.simps Let_def element_def this1_def this2_def call_def kids_def
        schema_entry_def
      by simp
    have "AList.update k v al \<noteq> []" for k :: string and v :: ElementInfo and al
      by (cases al) simp_all
    then have one: "P this1"
      by (simp add: P_def this1_def js_set_def)
    then have two: "P (final (Returned this2))"
      by (simp add: P_def this2_def)
    have kid: "P (final (registerElement_run host mk c (Some element) s))" if "c \<in> set kids" for c s
      using Node.IH [of c "Some element" s] that by (simp add: kids_def)
    have "P (final (foldl (\<lambda>run c. case run of
                     Returned s \<Rightarrow> registerElement_run host mk c (Some element) s
                   | Thrown s \<Rightarrow> Thrown s) (Returned this2) kids))"
      using kid two by (rule final_children)
    with one show ?case
      unfolding r by simp
  qed
  then show ?thesis
    by (simp add: P_def)
qed

lemma init_run_stored:
  assumes "templates \<noteq> []"
  shows "elements (final (init_run host parseFromString mk templates this)) \<noteq> []
         \<or> prototype (final (init_run host parseFromString mk templates this)) \<noteq> None"
proof -
  define P where "P = (\<lambda>s :: TemplateEditing. elements s \<noteq> [] \<or> prototype s \<noteq> None)"
  define root where "root = (\<lambda>p :: string \<times> template.
     setAttribute (parseFromString (template (snd p))) ''ck-name'' (fst p))"
  define call where "call = Extend ''$text'' (map (\<lambda>key. ''ck__'' @ key) (Object_keys templates))"
  define f where "f = (\<lambda>p s. registerElement_run host mk (root p) None s)"
  define loop where "loop = foldl (\<lambda>run p. case run of Returned s \<Rightarrow> f p s | Thrown s \<Rightarrow> Thrown s)
                              (Returned this) (own_properties templates)"
  have r: "init_run host parseFromString mk templates this
     = (case loop of
          Returned this1 \<Rightarrow>
            if host (schema this1) call then Returned (this1\<lparr>schema := schema this1 @ [call]\<rparr>)
            else Thrown this1
        | Thrown s \<Rightarrow> Thrown s)"
    unfolding init_run_def Let_def root_def call_def split_def loop_def f_def ..
  from assms have "length (own_properties templates) \<noteq> 0"
    by (simp add: length_own_properties)
  then obtain p ps where ps: "own_properties templates = p # ps"
    by (cases "own_properties templates") simp_all
  have any: "P (final (f q s))" for q s
    using registerElement_run_stored [of host mk "root q" None s] by (simp add: P_def f_def)
  have "P (final (foldl (\<lambda>run p. case run of Returned s \<Rightarrow> f p s | Thrown s \<Rightarrow> Thrown s)
                    (f p this) ps))"
    using any any by (rule final_children)
  then have "P (final loop)"
    by (simp add: loop_def ps)
  then have "P (final (init_run host parseFromString mk templates this))"
    by (cases loop) (simp_all add: r P_def)
  then show ?thesis
    by (simp add: P_def)
qed

text \<open>
  With a host that refuses a name it holds, the run over \<open>colliding_templates\<close> is ended by
  the host at the second registration of \<^verbatim>\<open>ck__a__p\<close>.
\<close>

lemma own_properties_colliding: "own_properties colliding_templates = colliding_templates"
  by (rule own_properties_plain)
     (simp add: colliding_templates_def is_array_index_def is_digit_def)

lemma init_run_collision:
  "init_run sample_host sample_parse sample_ElementInfo colliding_templates new_TemplateEditing
     = Thrown \<lparr>elements =
                 [(''ck__a'', ElementInfo ''ck__a'' ''element'' ''div'' [] None),
                  (''ck__a__p'', ElementInfo ''ck__a__p'' ''element'' ''div'' [] None)],
               prototype = None,
               typeMap = [(''element'', ''ck__a__p'')],
               schema =
                 [Register ''ck__a'' \<lparr>isObject = True, isBlock = True, allowIn = ''$root'',
                                      allowAttributes = []\<rparr>,
                  Register ''ck__a__p'' \<lparr>isObject = True, isBlock = True, allowIn = ''ck__a'',
                                         allowAttributes = []\<rparr>]\<rparr>"
  unfolding init_run_def own_properties_colliding
  by (simp add: colliding_templates_def sample_parse_def sample_ElementInfo_def Let_def
        new_TemplateEditing_def js_set_def sample_host_def registered_def Object_keys_def
        own_properties_def)

text \<open>
  C2, as the claim states it, fails: \<^verbatim>\<open>init\<close> has no failure path of its own. For the markup
  \<^verbatim>\<open><div>\<close>, which is not well-formed, the parser answers with a \<^verbatim>\<open>parsererror\<close> document, and
  \<^verbatim>\<open>init\<close> registers a descriptor for its root. In \<open>colliding_templates\<close> the nested element of
  the first definition and the root of the second get the same name: a host that accepts
  every call is left with both roots registered, and a host that refuses the second
  registration of the name ends the run with both roots in the registry.
\<close>

theorem init_malformed_counterexample:
  "sample_parse ''<div>'' = parsererror
   \<and> elements (init sample_parse sample_ElementInfo broken_templates new_TemplateEditing)
     = [(''ck__broken'', ElementInfo ''ck__broken'' ''element'' ''parsererror'' [] None)]
   \<and> map name (constructed sample_ElementInfo
        (init_calls sample_parse sample_ElementInfo colliding_templates))
     = [''ck__a'', ''ck__a__p'', ''ck__a__p'']
   \<and> elements (init sample_parse sample_ElementInfo colliding_templates new_TemplateEditing)
     = [(''ck__a'', ElementInfo ''ck__a'' ''element'' ''div'' [] None),
        (''ck__a__p'', ElementInfo ''ck__a__p'' ''element'' ''div'' [] None)]
   \<and> init_run sample_host sample_parse sample_ElementInfo colliding_templates new_TemplateEditing
     = Thrown \<lparr>elements =
                 [(''ck__a'', ElementInfo ''ck__a'' ''element'' ''div'' [] None),
                  (''ck__a__p'', ElementInfo ''ck__a__p'' ''element'' ''div'' [] None)],
               prototype = None,
               typeMap = [(''element'', ''ck__a__p'')],
               schema =
                 [Register ''ck__a'' \<lparr>isObject = True, isBlock = True, allowIn = ''$root'',
                                      allowAttributes = []\<rparr>,
                  Register ''ck__a__p'' \<lparr>isObject = True, isBlock = True, allowIn = ''ck__a'',
                                         allowAttributes = []\<rparr>]\<rparr>"
proof -
  have "init_calls sample_parse sample_ElementInfo broken_templates
          = [(Node 1 ''parsererror'' [(''ck-name'', ''broken'')] [Node 3 ''#text'' [] []], None)]"
    by (simp add: init_calls_def own_properties_broken)
       (simp add: broken_templates_def sample_parse_def parsererror_def)
  then have "elements (init sample_parse sample_ElementInfo broken_templates new_TemplateEditing)
     = [(''ck__broken'', ElementInfo ''ck__broken'' ''element'' ''parsererror'' [] None)]"
    by (simp add: elements_init constructed_def new_TemplateEditing_def)
       (simp add: store_def js_set_def sample_ElementInfo_def)
  moreover have c: "constructed sample_ElementInfo
        (init_calls sample_parse sample_ElementInfo colliding_templates)
      = [ElementInfo ''ck__a'' ''element'' ''div'' [] None,
         ElementInfo ''ck__a__p'' ''element'' ''p'' []
           (Some (ElementInfo ''ck__a'' ''element'' ''div'' [] None)),
         ElementInfo ''ck__a__p'' ''element'' ''div'' [] None]"
    by (simp add: init_calls_def own_properties_colliding constructed_def)
       (simp add: colliding_templates_def sample_parse_def sample_ElementInfo_def)
  moreover have "elements (init sample_parse sample_ElementInfo colliding_templates
        new_TemplateEditing)
     = [(''ck__a'', ElementInfo ''ck__a'' ''element'' ''div'' [] None),
        (''ck__a__p'', ElementInfo ''ck__a__p'' ''element'' ''div'' [] None)]"
    by (simp add: elements_init c new_TemplateEditing_def store_def js_set_def)
  ultimately show ?thesis
    by (simp add: init_run_collision sample_parse_def)
qed

text \<open>
  C2, amended. \<^verbatim>\<open>init\<close> looks neither at what the parser answers nor, before it stores a
  descriptor, at the names the registry holds. In a run in which the host accepts every
  schema call and the names of the descriptors constructed are pairwise distinct and none
  is \<^verbatim>\<open>__proto__\<close>, \<^verbatim>\<open>init\<close> returns with the registry holding each constructed descriptor under
  its name, in construction order. The constructor calls without parent are those for the
  roots of the parser's answers, one for each definition, whatever the markup was, so at
  least one descriptor is constructed for each definition. Whatever schema call a host \<open>h\<close>
  refuses, the run over a configuration that is not empty ends, returning or not, with a
  descriptor stored (as an own property of the registry, or as its prototype).
\<close>

theorem init_registers_whatever_is_parsed:
  assumes "distinct (map name (constructed mk (init_calls parseFromString mk templates)))"
    and "list_all (\<lambda>e. name e \<noteq> ''__proto__'')
           (constructed mk (init_calls parseFromString mk templates))"
    and "accepts host [] (schema (init parseFromString mk templates new_TemplateEditing))"
  shows "init_run host parseFromString mk templates new_TemplateEditing
           = Returned (init parseFromString mk templates new_TemplateEditing)
       \<and> elements (init parseFromString mk templates new_TemplateEditing)
           = map (\<lambda>e. (name e, e)) (constructed mk (init_calls parseFromString mk templates))
       \<and> filter (\<lambda>c. snd c = None) (init_calls parseFromString mk templates)
         = map (\<lambda>(n, t). (setAttribute (parseFromString (template t)) ''ck-name'' n, None))
             (own_properties templates)
       \<and> length templates \<le> length (init_calls parseFromString mk templates)
       \<and> (templates \<noteq> [] \<longrightarrow>
            elements (final (init_run h parseFromString mk templates new_TemplateEditing)) \<noteq> []
            \<or> prototype (final (init_run h parseFromString mk templates new_TemplateEditing))
                \<noteq> None)"
proof -
  have "foldl store [] (constructed mk (init_calls parseFromString mk templates))
          = map (\<lambda>e. (name e, e)) (constructed mk (init_calls parseFromString mk templates))"
    using store_all_fresh [OF assms(1,2), of "[]"] by simp
  then have "elements (init parseFromString mk templates new_TemplateEditing)
           = map (\<lambda>e. (name e, e)) (constructed mk (init_calls parseFromString mk templates))"
    by (simp add: elements_init new_TemplateEditing_def)
  moreover have "filter (\<lambda>c. snd c = None) (init_calls parseFromString mk templates)
         = map (\<lambda>(n, t). (setAttribute (parseFromString (template t)) ''ck-name'' n, None))
             (own_properties templates)"
    unfolding init_calls_def by (rule filter_init_calls)
  moreover note init_run_accepted [OF assms(3)] length_init_calls [of templates parseFromString mk]
  moreover have "templates \<noteq> [] \<longrightarrow>
            elements (final (init_run h parseFromString mk templates new_TemplateEditing)) \<noteq> []
            \<or> prototype (final (init_run h parseFromString mk templates new_TemplateEditing))
                \<noteq> None"
    using init_run_stored [of templates h parseFromString mk new_TemplateEditing] by blast
  ultimately show ?thesis
    by blast
qed

text \<open>
  A configuration with a well-formed definition and one that is not; a host that refuses a
  name it holds accepts every call of the run, and with the host that refuses every call
  the run ends with the first root stored.
\<close>

theorem init_registers_whatever_is_parsed_witness:
  "distinct (map name (constructed sample_ElementInfo
       (init_calls sample_parse sample_ElementInfo mixed_templates)))
   \<and> list_all (\<lambda>e. name e \<noteq> ''__proto__'') (constructed sample_ElementInfo
       (init_calls sample_parse sample_ElementInfo mixed_templates))
   \<and> accepts sample_host []
       (schema (init sample_parse sample_ElementInfo mixed_templates new_TemplateEditing))
   \<and> mixed_templates \<noteq> []
   \<and> sample_parse ''<div>'' = parsererror
   \<and> init_run sample_host sample_parse sample_ElementInfo mixed_templates new_TemplateEditing
     = Returned (init sample_parse sample_ElementInfo mixed_templates new_TemplateEditing)
   \<and> elements (init sample_parse sample_ElementInfo mixed_templates new_TemplateEditing)
     = [(''ck__simple'', ck_simple), (''ck__broken'', ck_broken)]
   \<and> elements (final (init_run refusing_host sample_parse sample_ElementInfo mixed_templates
        new_TemplateEditing)) = [(''ck__simple'', ck_simple)]"
proof -
  have "\<not> is_array_index ''simple''" "\<not> is_array_index ''broken''"
    by (simp_all add: not_index_sample)
  then have o: "own_properties mixed_templates = mixed_templates"
    by (intro own_properties_plain) (simp add: mixed_templates_def)
  have i: "init_calls sample_parse sample_ElementInfo mixed_templates
             = [(Node 1 ''div'' [(''ck-name'', ''simple'')] [], None),
                (Node 1 ''parsererror'' [(''ck-name'', ''broken'')] [Node 3 ''#text'' [] []], None)]"
    by (simp add: init_calls_def o)
       (simp add: mixed_templates_def sample_parse_def parsererror_def)
  have c: "constructed sample_ElementInfo
        (init_calls sample_parse sample_ElementInfo mixed_templates) = [ck_simple, ck_broken]"
    by (simp add: i constructed_def sample_ElementInfo_def ck_simple_def ck_broken_def)
  have d: "distinct (map name (constructed sample_ElementInfo
       (init_calls sample_parse sample_ElementInfo mixed_templates)))"
    by (simp add: c) (simp add: ck_simple_def ck_broken_def)
  have p: "list_all (\<lambda>e. name e \<noteq> ''__proto__'') (constructed sample_ElementInfo
       (init_calls sample_parse sample_ElementInfo mixed_templates))"
    by (simp add: c) (simp add: ck_simple_def ck_broken_def)
  have a: "accepts sample_host []
       (schema (init sample_parse sample_ElementInfo mixed_templates new_TemplateEditing))"
    by (simp add: schema_init i)
       (simp add: new_TemplateEditing_def schema_entry_def sample_ElementInfo_def sample_host_def
          registered_def)
  have e: "map (\<lambda>e. (name e, e)) [ck_simple, ck_broken]
             = [(''ck__simple'', ck_simple), (''ck__broken'', ck_broken)]"
    by (simp add: ck_simple_def ck_broken_def)
  have n: "mixed_templates \<noteq> []"
    by (simp add: mixed_templates_def)
  have r: "elements (final (init_run refusing_host sample_parse sample_ElementInfo mixed_templates
        new_TemplateEditing)) = [(''ck__simple'', ck_simple)]"
    unfolding init_run_def o
    by (simp add: mixed_templates_def sample_parse_def sample_ElementInfo_def Let_def
          new_TemplateEditing_def js_set_def refusing_host_def ck_simple_def)
  show ?thesis
    using init_registers_whatever_is_parsed [OF d p a, of refusing_host] d p a c e n r
    by (simp add: sample_parse_def)
qed




lemma root_constructed:
  "(d, None) \<in> set (filter (\<lambda>c. snd c = None) cs) \<Longrightarrow> mk d None \<in> set (constructed mk cs)"
  by (force simp: constructed_def)



text \<open>
  The names that line 113 of the plugin builds for the same roots begin with \<^verbatim>\<open>ck__\<close>: with
  the root name of the spec, \<^verbatim>\<open>$text\<close> is allowed in none of the roots.
\<close>

lemma spec_names_not_allowed:
  "''tpl__'' @ n \<notin> set (extended (init parseFromString mk templates new_TemplateEditing) ''$text'')"
  by (auto simp: extended_def schema_init new_TemplateEditing_def schema_entry_def)

section \<open>Downcast\<close>

lemma own_value_listed:
  assumes "js_get proto obj k = Own v"
  shows "v \<in> set (Object_values obj)"
proof -
  have "map_of obj k = Some v"
    using assms by (simp add: js_get_def split: option.splits if_splits)
  then have "(k, v) \<in> set (own_properties obj)"
    by (simp add: set_own_properties map_of_SomeD)
  then show ?thesis
    by (force simp: Object_values_def)
qed

lemma own_type_listed:
  "js_get proto (elements this) k = Own el \<Longrightarrow> type el \<in> set (elementTypes this)"
  by (drule own_value_listed) (simp add: elementTypes_def Set_values_def)

lemma js_get_sample:
  "js_get proto
     (elements (init sample_parse sample_ElementInfo sample_templates new_TemplateEditing))
     ''ck__simple'' = Own ck_simple"
  "js_get proto
     (elements (init sample_parse sample_ElementInfo sample_templates new_TemplateEditing))
     ''ck__complex__p'' = Own ck_complex_p"
  by (simp_all add: elements_sample js_get_def)

lemma card_plugin_state:
  "elements card_plugin = [(''ck__card'', ck_card), (''ck__card__span'', ck_card_span)]"
  "prototype card_plugin = None"
  by (simp_all add: card_plugin_def card_dom_def new_TemplateEditing_def Let_def js_set_def
        typed_ElementInfo_def ck_card_def ck_card_span_def)

text \<open>
  C4, as the claim states it, fails. The nested \<^verbatim>\<open>span\<close> of this registry is registered, has a
  parent, and is of the type \<^verbatim>\<open>placeholder\<close>: the editing downcast, which \<^verbatim>\<open>init\<close> adds for the
  type \<^verbatim>\<open>element\<close> only (line 140), builds no view for a model element of its name.
\<close>

theorem editingDowncast_type_counterexample:
  "getElementInfo card_plugin ''ck__card__span'' = Own ck_card_span
   \<and> parent ck_card_span = Some ck_card
   \<and> type ck_card_span = ''placeholder''
   \<and> editingDowncast (\<lambda>el m. model_attributes m) card_plugin
        \<lparr>model_name = ''ck__card__span'', model_attributes = []\<rparr> = NotConverted"
  by (simp add: getElementInfo_def editingDowncast_def downcastTemplateElement_def
        card_plugin_state js_get_def)
     (simp add: ck_card_span_def)

text \<open>
  C4, amended. The view that the editing downcast builds is a container element with the
  descriptor's tag and the model attributes: as it is when the descriptor has a parent, and
  marked as a widget by \<^verbatim>\<open>toWidget\<close> when it has none. The view that the data downcast builds
  is the container element, never marked. For a model element whose name is registered,
  with descriptor \<open>templateElement\<close>, the data downcast builds that view; the editing
  downcast builds its view when the descriptor is of the type \<^verbatim>\<open>element\<close>, and nothing when it
  is of another type.
\<close>

theorem downcast_widget_only_editing_roots:
  assumes "js_get (prototype this) (elements this) (model_name modelElement) = Own templateElement"
  shows "editingDowncast_view getModelAttributes templateElement modelElement
           = (if parent templateElement \<noteq> None
              then createContainerElement (tagName templateElement)
                     (getModelAttributes templateElement modelElement)
              else toWidget (createContainerElement (tagName templateElement)
                     (getModelAttributes templateElement modelElement)))
         \<and> dataDowncast_view getModelAttributes templateElement modelElement
           = createContainerElement (tagName templateElement)
               (getModelAttributes templateElement modelElement)
         \<and> \<not> widget (createContainerElement (tagName templateElement)
                        (getModelAttributes templateElement modelElement))
         \<and> widget (toWidget (createContainerElement (tagName templateElement)
                        (getModelAttributes templateElement modelElement)))
         \<and> editingDowncast getModelAttributes this modelElement
           = (if type templateElement = ''element''
              then Converted (editingDowncast_view getModelAttributes templateElement modelElement)
              else NotConverted)
         \<and> dataDowncast getModelAttributes this modelElement
           = Converted (dataDowncast_view getModelAttributes templateElement modelElement)"
  using assms own_type_listed [OF assms]
  by (simp add: editingDowncast_def dataDowncast_def downcastTemplateElement_def
        editingDowncast_view_def dataDowncast_view_def Let_def createContainerElement_def
        toWidget_def)

text \<open>
  The root \<^verbatim>\<open>ck__simple\<close> and the nested \<^verbatim>\<open>ck__complex__p\<close> of the sample configuration, and the
  nested \<^verbatim>\<open>span\<close> of type \<^verbatim>\<open>placeholder\<close>.
\<close>

theorem downcast_widget_only_editing_roots_witness:
  "editingDowncast (\<lambda>el m. model_attributes m)
     (init sample_parse sample_ElementInfo sample_templates new_TemplateEditing)
     \<lparr>model_name = ''ck__simple'', model_attributes = []\<rparr>
     = Converted \<lparr>view_name = ''div'', view_attributes = [], widget = True\<rparr>
   \<and> dataDowncast (\<lambda>el m. model_attributes m)
     (init sample_parse sample_ElementInfo sample_templates new_TemplateEditing)
     \<lparr>model_name = ''ck__simple'', model_attributes = []\<rparr>
     = Converted \<lparr>view_name = ''div'', view_attributes = [], widget = False\<rparr>
   \<and> editingDowncast (\<lambda>el m. model_attributes m)
     (init sample_parse sample_ElementInfo sample_templates new_TemplateEditing)
     \<lparr>model_name = ''ck__complex__p'', model_attributes = []\<rparr>
     = Converted \<lparr>view_name = ''p'', view_attributes = [], widget = False\<rparr>
   \<and> dataDowncast (\<lambda>el m. model_attributes m) card_plugin
     \<lparr>model_name = ''ck__card__span'', model_attributes = []\<rparr>
     = Converted \<lparr>view_name = ''span'', view_attributes = [], widget = False\<rparr>
   \<and> editingDowncast (\<lambda>el m. model_attributes m) card_plugin
     \<lparr>model_name = ''ck__card__span'', model_attributes = []\<rparr> = NotConverted"
proof -
  let ?sample = "init sample_parse sample_ElementInfo sample_templates new_TemplateEditing"
  have a: "js_get (prototype ?sample) (elements ?sample)
             (model_name \<lparr>model_name = ''ck__simple'', model_attributes = []\<rparr>) = Own ck_simple"
    by (simp add: js_get_sample)
  have b: "js_get (prototype ?sample) (elements ?sample)
             (model_name \<lparr>model_name = ''ck__complex__p'', model_attributes = []\<rparr>)
           = Own ck_complex_p"
    by (simp add: js_get_sample)
  have c: "js_get (prototype card_plugin) (elements card_plugin)
             (model_name \<lparr>model_name = ''ck__card__span'', model_attributes = []\<rparr>)
           = Own ck_card_span"
    by (simp add: card_plugin_state js_get_def)
  show ?thesis
    using downcast_widget_only_editing_roots [OF a, of "\<lambda>el m. model_attributes m"]
      downcast_widget_only_editing_roots [OF b, of "\<lambda>el m. model_attributes m"]
      downcast_widget_only_editing_roots [OF c, of "\<lambda>el m. model_attributes m"]
    by (simp add: ck_simple_def ck_complex_p_def ck_card_span_def createContainerElement_def
          toWidget_def)
qed

section \<open>Round trip\<close>








section \<open>Repair\<close>

lemma node_name_repair_node: "node_name (fst (repair_node d a)) = node_name a"
  by (cases d; cases a) (simp add: Let_def split_beta)

lemma repair_children_unchanged:
  "list_all2 (\<lambda>d a. node_name a = descriptor_name d \<and> repair_node d a = (a, [])) ds actual
     \<Longrightarrow> repair_children ds actual = (actual, [], 0)"
  by (induction ds actual rule: list_all2_induct) simp_all

lemma filter_named:
  "list_all2 (\<lambda>d a. node_name a = descriptor_name d \<and> Q d a) ds actual
     \<Longrightarrow> filter (\<lambda>a. node_name a \<in> set (map descriptor_name ds)) actual = actual"
proof -
  assume "list_all2 (\<lambda>d a. node_name a = descriptor_name d \<and> Q d a) ds actual"
  then have "\<forall>a \<in> set actual. node_name a \<in> set (map descriptor_name ds)"
    by (induction ds actual rule: list_all2_induct) auto
  then show ?thesis
    by (simp add: filter_id_conv)
qed

lemma consistent_unchanged: "consistent d a \<Longrightarrow> repair_node d a = (a, [])"
proof (induction d arbitrary: a)
  case (Descriptor n ds)
  obtain m actual where a: "a = ModelNode m actual"
    by (cases a)
  show ?case
  proof (cases "ds = []")
    case True
    then show ?thesis by (simp add: a)
  next
    case False
    with Descriptor.prems a
    have c: "list_all2 (\<lambda>d a. node_name a = descriptor_name d \<and> consistent d a) ds actual"
      by simp
    then have "list_all2 (\<lambda>d a. node_name a = descriptor_name d \<and> repair_node d a = (a, []))
                 ds actual"
      using Descriptor.IH by (simp add: list_all2_conv_all_nth)
    then have r: "repair_children ds actual = (actual, [], 0)"
      by (rule repair_children_unchanged)
    have k: "filter (\<lambda>a. node_name a \<in> set (map descriptor_name ds)) actual = actual"
      using c by (rule filter_named)
    with r False show ?thesis
      by (simp add: a)
  qed
qed

lemma consistent_materialize: "consistent d (materialize d)"
proof (induction d)
  case (Descriptor n ds)
  have "node_name (materialize d) = descriptor_name d" for d
    by (cases d) simp
  with Descriptor show ?case
    by (simp add: list_all2_map2 list_all2_same)
qed

lemma names_repair_children:
  "set (map node_name (fst (repair_children ds actual)))
     \<subseteq> set (map descriptor_name ds) \<union> set (map node_name actual)"
proof (induction ds arbitrary: actual)
  case Nil
  then show ?case by simp
next
  case (Cons d ds)
  show ?case
  proof (cases actual)
    case Nil
    then show ?thesis
      using Cons [of "[]"] by (cases d) (auto simp: split_beta)
  next
    case (Cons a rest)
    show ?thesis
    proof (cases "node_name a = descriptor_name d")
      case True
      then show ?thesis
        using Cons.IH [of rest] Cons
        by (auto simp: split_beta node_name_repair_node)
    next
      case False
      then show ?thesis
        using Cons.IH [of actual] Cons
        by (cases d) (auto simp: split_beta)
    qed
  qed
qed

lemma repair_children_again:
  assumes "\<And>d a. d \<in> set ds \<Longrightarrow> repair_node d (fst (repair_node d a)) = (fst (repair_node d a), [])"
  shows "repair_children ds (fst (repair_children ds actual))
           = (fst (repair_children ds actual), [], 0)"
  using assms
proof (induction ds arbitrary: actual)
  case Nil
  then show ?case by simp
next
  case (Cons d ds)
  have fresh: "repair_node d (materialize d) = (materialize d, [])"
    by (rule consistent_unchanged) (rule consistent_materialize)
  have nm: "node_name (materialize d) = descriptor_name d"
    by (cases d) simp
  have IH: "repair_children ds (fst (repair_children ds xs))
              = (fst (repair_children ds xs), [], 0)" for xs
    using Cons.IH Cons.prems by simp
  show ?case
  proof (cases actual)
    case Nil
    then show ?thesis
      using IH [of "[]"] fresh nm by (simp add: split_beta)
  next
    case (Cons a rest)
    show ?thesis
    proof (cases "node_name a = descriptor_name d")
      case True
      then show ?thesis
        using IH [of rest] Cons Cons.prems [of d a]
        by (simp add: split_beta node_name_repair_node)
    next
      case False
      then show ?thesis
        using IH [of actual] Cons fresh nm by (simp add: split_beta)
    qed
  qed
qed

lemma repair_node_again:
  "repair_node d (fst (repair_node d a)) = (fst (repair_node d a), [])"
proof (induction d arbitrary: a)
  case (Descriptor n ds)
  obtain m actual where a: "a = ModelNode m actual"
    by (cases a)
  show ?case
  proof (cases "ds = []")
    case True
    then show ?thesis by (simp add: a)
  next
    case False
    define kept where "kept = filter (\<lambda>a. node_name a \<in> set (map descriptor_name ds)) actual"
    define cs where "cs = fst (repair_children ds kept)"
    have first: "fst (repair_node (Descriptor n ds) a) = ModelNode m cs"
      using False by (simp add: a Let_def split_beta kept_def cs_def)
    have "set (map node_name cs) \<subseteq> set (map descriptor_name ds)"
      using names_repair_children [of ds kept] by (auto simp: cs_def kept_def)
    then have "\<forall>c \<in> set cs. node_name c \<in> set (map descriptor_name ds)"
      by auto
    then have k: "filter (\<lambda>a. node_name a \<in> set (map descriptor_name ds)) cs = cs"
      by (simp add: filter_id_conv)
    have "repair_children ds cs = (cs, [], 0)"
      unfolding cs_def by (rule repair_children_again) (rule Descriptor.IH)
    with k False show ?thesis
      by (simp add: first)
  qed
qed

lemma repair_again:
  "repair lookupByName (fst (repair lookupByName changed)) = (fst (repair lookupByName changed), [])"
proof (induction changed)
  case Nil
  then show ?case by simp
next
  case (Cons n changed)
  show ?case
  proof (cases "lookupByName (node_name n)")
    case None
    with Cons show ?thesis by (simp add: split_beta)
  next
    case (Some D)
    with Cons show ?thesis
      by (simp add: split_beta node_name_repair_node repair_node_again)
  qed
qed

lemma repair_consistent:
  "list_all (\<lambda>n. case lookupByName (node_name n) of None \<Rightarrow> True | Some D \<Rightarrow> consistent D n) changed
     \<Longrightarrow> repair lookupByName changed = (changed, [])"
proof (induction changed)
  case Nil
  then show ?case by simp
next
  case (Cons n changed)
  then show ?case
    by (cases "lookupByName (node_name n)") (simp_all add: consistent_unchanged)
qed


lemma descendants_self: "d \<in> set (descendants d)"
  by (cases d) simp

lemma descendants_child:
  "c \<in> set ds \<Longrightarrow> d' \<in> set (descendants c) \<Longrightarrow> d' \<in> set (descendants (Descriptor n ds))"
  by auto

lemma touched_children:
  assumes "\<And>d a t. d \<in> set ds \<Longrightarrow> node_name a = descriptor_name d
             \<Longrightarrow> t \<in> set (snd (repair_node d a)) \<Longrightarrow> settled d t"
    and "t \<in> set (fst (snd (repair_children ds actual)))"
  shows "\<exists>d \<in> set ds. settled d t"
  using assms
proof (induction ds arbitrary: actual)
  case Nil
  then show ?case by simp
next
  case (Cons d ds)
  have IH: "t \<in> set (fst (snd (repair_children ds xs))) \<Longrightarrow> \<exists>d \<in> set ds. settled d t" for xs
    using Cons.IH [of xs] Cons.prems(1) by simp
  show ?case
  proof (cases actual)
    case Nil
    then show ?thesis
      using IH [of "[]"] Cons.prems(2) by (auto simp: split_beta)
  next
    case (Cons a rest)
    show ?thesis
    proof (cases "node_name a = descriptor_name d")
      case True
      then have "t \<in> set (snd (repair_node d a)) \<or> t \<in> set (fst (snd (repair_children ds rest)))"
        using Cons Cons.prems(2) by (auto simp: split_beta)
      then show ?thesis
        using True IH [of rest] Cons.prems(1) [of d a t] by auto
    next
      case False
      then have "t \<in> set (fst (snd (repair_children ds actual)))"
        using Cons Cons.prems(2) by (auto simp: split_beta)
      then show ?thesis
        using IH [of actual] by auto
    qed
  qed
qed

lemma touched_settled:
  "node_name a = descriptor_name d \<Longrightarrow> t \<in> set (snd (repair_node d a)) \<Longrightarrow> settled d t"
proof (induction d arbitrary: a t)
  case (Descriptor n ds)
  obtain m actual where a: "a = ModelNode m actual"
    by (cases a)
  show ?case
  proof (cases "ds = []")
    case True
    with Descriptor.prems show ?thesis by (simp add: a)
  next
    case False
    define kept where "kept = filter (\<lambda>a. node_name a \<in> set (map descriptor_name ds)) actual"
    have "t = fst (repair_node (Descriptor n ds) a)
            \<or> t \<in> set (fst (snd (repair_children ds kept)))"
      using Descriptor.prems(2) False
      by (auto simp: a Let_def split_beta kept_def split: if_splits)
    then show ?thesis
    proof
      assume t: "t = fst (repair_node (Descriptor n ds) a)"
      then have "repair_node (Descriptor n ds) t = (t, [])"
        by (simp only: repair_node_again)
      moreover have "node_name t = n"
        using t Descriptor.prems(1) by (simp only: node_name_repair_node) simp
      ultimately show ?thesis
        unfolding settled_def by (intro bexI [of _ "Descriptor n ds"]) simp_all
    next
      assume "t \<in> set (fst (snd (repair_children ds kept)))"
      then obtain c where c: "c \<in> set ds" "settled c t"
        using touched_children [of ds t kept] Descriptor.IH by blast
      then show ?thesis
        unfolding settled_def using descendants_child [OF c(1)] by blast
    qed
  qed
qed

lemma touched_below:
  assumes "t \<in> set (snd (repair_node d a))" and "t \<noteq> fst (repair_node d a)"
  shows "\<exists>c \<in> set (children d). settled c t"
proof -
  obtain n ds where d: "d = Descriptor n ds"
    by (cases d)
  obtain m actual where a: "a = ModelNode m actual"
    by (cases a)
  define kept where "kept = filter (\<lambda>a. node_name a \<in> set (map descriptor_name ds)) actual"
  have "t \<in> set (fst (snd (repair_children ds kept)))"
    using assms by (auto simp: a d Let_def split_beta kept_def split: if_splits)
  then show ?thesis
    using touched_children [of ds t kept] touched_settled by (auto simp: d)
qed

lemma repair_settled:
  assumes "\<forall>t \<in> set ts. \<exists>d. lookupByName (node_name t) = Some d \<and> repair_node d t = (t, [])"
  shows "repair lookupByName ts = (ts, [])"
  using assms by (induction ts) auto

lemma touched_top:
  assumes "unique_names lookupByName" and "t \<in> set (snd (repair lookupByName changed))"
  shows "\<exists>d. lookupByName (node_name t) = Some d \<and> repair_node d t = (t, [])"
  using assms(2)
proof (induction changed)
  case Nil
  then show ?case by simp
next
  case (Cons n changed)
  show ?case
  proof (cases "lookupByName (node_name n)")
    case None
    with Cons show ?thesis by (auto simp: split_beta)
  next
    case (Some D)
    have "t \<in> set (snd (repair_node D n)) \<or> t \<in> set (snd (repair lookupByName changed))"
      using Cons.prems Some by (auto simp: split_beta)
    then show ?thesis
    proof
      assume t: "t \<in> set (snd (repair_node D n))"
      show ?thesis
      proof (cases "t = fst (repair_node D n)")
        case True
        then show ?thesis
          using Some by (simp add: node_name_repair_node repair_node_again)
      next
        case False
        with t obtain c where c: "c \<in> set (children D)" "settled c t"
          using touched_below by blast
        then obtain d' where d': "d' \<in> set (descendants c)" "node_name t = descriptor_name d'"
            "repair_node d' t = (t, [])"
          unfolding settled_def by blast
        have "d' \<in> set (descendants D)"
          using c(1) d'(1) by (cases D) auto
        then have "lookupByName (descriptor_name d') = Some d'"
          using assms(1) Some unfolding unique_names_def by blast
        with d' show ?thesis by simp
      qed
    next
      assume "t \<in> set (snd (repair lookupByName changed))"
      then show ?thesis by (rule Cons.IH)
    qed
  qed
qed


text \<open>
  C6. After one call of \<^verbatim>\<open>repair\<close>, a second call touches nothing: neither on the changed
  nodes as the first call left them, nor, when names are unique in the registry, on the
  nodes the first call touched. On changed nodes that are consistent with their descriptors
  \<^verbatim>\<open>repair\<close> touches nothing.
\<close>

theorem repair_idempotent:
  "repair lookupByName (fst (repair lookupByName changed))
     = (fst (repair lookupByName changed), [])
   \<and> (unique_names lookupByName
        \<longrightarrow> snd (repair lookupByName (snd (repair lookupByName changed))) = [])
   \<and> (list_all (\<lambda>n. case lookupByName (node_name n) of
                        None \<Rightarrow> True | Some D \<Rightarrow> consistent D n) changed
        \<longrightarrow> snd (repair lookupByName changed) = [])"
proof -
  have "snd (repair lookupByName (snd (repair lookupByName changed))) = []"
    if "unique_names lookupByName"
    using repair_settled [of "snd (repair lookupByName changed)" lookupByName]
      touched_top [OF that, of _ changed] by simp
  then show ?thesis
    by (simp add: repair_again repair_consistent)
qed

lemma unique_names_sample: "unique_names sample_lookup"
  unfolding unique_names_def
  by (auto simp: sample_lookup_def parent_descriptor_def child_descriptor_def split: if_splits)

text \<open>
  The node that lost its child and got a paragraph: the first call removes the paragraph,
  inserts the child and touches the node; the second call touches nothing.
\<close>

theorem repair_idempotent_witness:
  "unique_names sample_lookup
   \<and> repair sample_lookup [broken_node] = ([repaired_node], [repaired_node])
   \<and> repair sample_lookup [repaired_node] = ([repaired_node], [])
   \<and> list_all (\<lambda>n. case sample_lookup (node_name n) of
                      None \<Rightarrow> True | Some D \<Rightarrow> consistent D n) [repaired_node]"
proof -
  have r: "repair sample_lookup [broken_node] = ([repaired_node], [repaired_node])"
    by (simp add: sample_lookup_def broken_node_def repaired_node_def parent_descriptor_def
          child_descriptor_def)
  have c: "list_all (\<lambda>n. case sample_lookup (node_name n) of
                      None \<Rightarrow> True | Some D \<Rightarrow> consistent D n) [repaired_node]"
    by (simp add: sample_lookup_def repaired_node_def parent_descriptor_def child_descriptor_def)
  show ?thesis
    using repair_idempotent [of sample_lookup "[broken_node]"]
      repair_idempotent [of sample_lookup "[repaired_node]"] unique_names_sample r c
    by (simp add: prod_eq_iff)
qed

end
